theory Spec2Isabelle
  imports Main
begin

section \<open>Strings as the program builds them\<close>

text \<open>
  Python strings are modelled as \<open>string\<close> (lists of characters).  The helpers below
  are the string operations \<^verbatim>\<open>qc_pipeline.py\<close> uses: \<^verbatim>\<open>sep.join(xs)\<close>,
  \<^verbatim>\<open>s.split(sep)\<close> for a one-character separator, \<^verbatim>\<open>s.strip()\<close>,
  \<^verbatim>\<open>s.splitlines()\<close>, \<^verbatim>\<open>s.endswith(t)\<close> and \<^verbatim>\<open>str(n)\<close> for an integer.
\<close>

definition os_sep :: string where
  "os_sep = ''/''"

definition TAB :: char where
  "TAB = CHR 0x09"

definition NL :: char where
  "NL = CHR 0x0A"

fun join :: "string \<Rightarrow> string list \<Rightarrow> string" where
  "join sep [] = []"
| "join sep [x] = x"
| "join sep (x # y # ys) = x @ sep @ join sep (y # ys)"

fun split :: "char \<Rightarrow> string \<Rightarrow> string list" where
  "split c [] = [[]]"
| "split c (x # xs) =
     (if x = c then [] # split c xs
      else (case split c xs of
              [] \<Rightarrow> [[x]]
            | y # ys \<Rightarrow> (x # y) # ys))"

definition is_space :: "char \<Rightarrow> bool" where
  "is_space c = (c \<in> set [CHR 0x09, CHR 0x0A, CHR 0x0B, CHR 0x0C, CHR 0x0D,
                            CHR 0x1C, CHR 0x1D, CHR 0x1E, CHR 0x1F, CHR 0x20,
                            CHR 0x85, CHR 0xA0])"

definition strip :: "string \<Rightarrow> string" where
  "strip s = rev (dropWhile is_space (rev (dropWhile is_space s)))"

definition endswith :: "string \<Rightarrow> string \<Rightarrow> bool" where
  "endswith s t = (length t \<le> length s \<and> drop (length s - length t) s = t)"

definition digit_char :: "nat \<Rightarrow> char" where
  "digit_char d = char_of (48 + d)"

fun str_nat :: "nat \<Rightarrow> string" where
  "str_nat n = (if n < 10 then [digit_char n] else str_nat (n div 10) @ [digit_char (n mod 10)])"

declare str_nat.simps [simp del]

definition str_int :: "int \<Rightarrow> string" where
  "str_int i = (if i < 0 then CHR ''-'' # str_nat (nat (- i)) else str_nat (nat i))"

section \<open>Exceptions\<close>

text \<open>
  A raised exception is a value: its class name, its \<^verbatim>\<open>args\<close> tuple (rendered as
  strings) and \<open>tb_code\<close>, the rendering of the code object of the frame below the
  worker in its traceback (what \<^verbatim>\<open>str(e.__traceback__.tb_next.tb_frame.f_code)\<close>
  reads).  A function that may raise returns \<open>exn + 'a\<close>, with \<open>Inl\<close> for the raise.
\<close>

record exn =
  cls :: string
  args :: "string list"
  tb_code :: string

definition ZeroDivisionError :: exn where
  "ZeroDivisionError = \<lparr>cls = ''ZeroDivisionError'', args = [''integer modulo by zero''], tb_code = []\<rparr>"

definition KeyError :: "string \<Rightarrow> exn" where
  "KeyError k = \<lparr>cls = ''KeyError'', args = [k], tb_code = []\<rparr>"

section \<open>Data model\<close>

text \<open>
  The per-item state \<^verbatim>\<open>s\<close> is the dictionary built by \<^verbatim>\<open>BaseImage\<close> (which is not
  part of the engine).  The engine reads three list-valued entries of it
  (\<^verbatim>\<open>s["output"]\<close>, \<^verbatim>\<open>s["warnings"]\<close>, \<^verbatim>\<open>s["completed"]\<close>), removes the entry
  \<^verbatim>\<open>"os_handle"\<close>, and applies \<^verbatim>\<open>str\<close> to the entries named in \<^verbatim>\<open>s["output"]\<close>.
  \<open>rendered s k\<close> is \<open>Some\<close> of \<^verbatim>\<open>str(s[k])\<close> when \<^verbatim>\<open>k\<close> is a key of the dictionary and
  \<open>None\<close> when it is not (then \<^verbatim>\<open>s[k]\<close> raises \<^verbatim>\<open>KeyError\<close>).
\<close>

record base_image =
  outputs :: "string list"
  warnings :: "string list"
  completed :: "string list"
  os_handle :: "string option"
  rendered :: "string \<rightharpoonup> string"

text \<open>
  The parsed command line.  \<open>args_batch\<close> is \<^verbatim>\<open>args.batch\<close>: \<open>None\<close> is the default
  \<^verbatim>\<open>float("inf")\<close>, \<open>Some b\<close> any integer \<^verbatim>\<open>type=int\<close> accepts (zero and negative
  numbers included).
\<close>

record arguments =
  input_pattern :: "string list"
  outdir :: string
  basepath :: string
  config :: string
  force :: bool
  args_batch :: "int option"
  nthreads :: int
  symlinkoff :: bool

datatype overwrite = W | A

text \<open>
  The coordinator's state: the module globals \<^verbatim>\<open>batch\<close>, \<^verbatim>\<open>nfiledone\<close>,
  \<^verbatim>\<open>first\<close>, \<^verbatim>\<open>failed\<close>, \<^verbatim>\<open>headers\<close>, the open report file \<^verbatim>\<open>csv_report\<close>
  (its name, and \<open>unflushed\<close>: what has been written to it and not yet flushed), and
  the contents of the files on disk.
\<close>

record run_state =
  batch :: int
  nfiledone :: int
  first :: bool
  failed :: "(string \<times> string) list"
  headers :: "string list"
  csv_report :: string
  unflushed :: string
  disk :: "string \<rightharpoonup> string"

section \<open>The report file\<close>

text \<open>
  \<^verbatim>\<open>open(filename, "w")\<close> empties the file, \<^verbatim>\<open>open(filename, "a")\<close> keeps what it
  holds; both create it when it is missing.  \<^verbatim>\<open>write\<close> adds to what is pending,
  \<^verbatim>\<open>flush\<close> and \<^verbatim>\<open>close\<close> put the pending text on disk.  (The file is opened line
  buffered, so the pending text may reach the disk earlier; the model keeps it pending
  until the flush the code asks for.)  An \<^verbatim>\<open>OSError\<close> from \<^verbatim>\<open>open\<close> is not modelled.
\<close>

definition open_report :: "string \<Rightarrow> overwrite \<Rightarrow> run_state \<Rightarrow> run_state" where
  "open_report filename flag st =
     st\<lparr>csv_report := filename,
        unflushed := [],
        disk := (case flag of
                    W \<Rightarrow> (disk st)(filename \<mapsto> [])
                  | A \<Rightarrow> (case disk st filename of
                            None \<Rightarrow> (disk st)(filename \<mapsto> [])
                          | Some _ \<Rightarrow> disk st))\<rparr>"

definition on_disk :: "run_state \<Rightarrow> string \<Rightarrow> string" where
  "on_disk st filename = (case disk st filename of None \<Rightarrow> [] | Some c \<Rightarrow> c)"

definition csv_write :: "string \<Rightarrow> run_state \<Rightarrow> run_state" where
  "csv_write data st = st\<lparr>unflushed := unflushed st @ data\<rparr>"

definition csv_flush :: "run_state \<Rightarrow> run_state" where
  "csv_flush st =
     st\<lparr>disk := (disk st)(csv_report st \<mapsto> on_disk st (csv_report st) @ unflushed st),
        unflushed := []\<rparr>"

definition csv_close :: "run_state \<Rightarrow> run_state" where
  "csv_close st = csv_flush st"

definition results_name :: "string \<Rightarrow> int \<Rightarrow> string" where
  "results_name dir k = dir @ os_sep @ ''results_'' @ str_int k @ ''.tsv''"

section \<open>The aggregator: \<^verbatim>\<open>callback\<close>\<close>

text \<open>
  \<^verbatim>\<open>if nfiledone and nfiledone % args.batch == 0\<close>: the conjunction short-circuits
  on \<^verbatim>\<open>nfiledone == 0\<close>; with the default \<^verbatim>\<open>float("inf")\<close> the remainder of a positive
  count is the count itself, never zero; an integer batch of zero raises
  \<^verbatim>\<open>ZeroDivisionError\<close>.  Python's \<^verbatim>\<open>%\<close> takes the sign of the divisor, as
  \<open>mod\<close> on \<open>int\<close> does.
\<close>

definition rotation_due :: "arguments \<Rightarrow> run_state \<Rightarrow> exn + bool" where
  "rotation_due a st =
     (if nfiledone st = 0 then Inr False
      else (case args_batch a of
              None \<Rightarrow> Inr False
            | Some b \<Rightarrow> if b = 0 then Inl ZeroDivisionError
                        else Inr (nfiledone st mod b = 0)))"

definition rotate :: "arguments \<Rightarrow> overwrite \<Rightarrow> run_state \<Rightarrow> run_state" where
  "rotate a flag st =
     (open_report (results_name (outdir a) (batch st + 1)) flag (csv_close st))
       \<lparr>batch := batch st + 1, first := True\<rparr>"

definition metadata_lines :: "string list \<Rightarrow> string" where
  "metadata_lines hs = join [NL] (map (\<lambda>h. ''#'' @ h) hs) @ [NL]"

definition header_line :: "base_image \<Rightarrow> string" where
  "header_line s = ''#dataset:'' @ join [TAB] (outputs s) @ [TAB] @ ''warnings'' @ [NL]"

definition write_header :: "overwrite \<Rightarrow> base_image \<Rightarrow> run_state \<Rightarrow> run_state" where
  "write_header flag s st =
     (if first st \<and> flag = W
      then csv_write (header_line s) (csv_write (metadata_lines (headers st)) (st\<lparr>first := False\<rparr>))
      else st)"

fun field_values :: "base_image \<Rightarrow> string list \<Rightarrow> exn + string list" where
  "field_values s [] = Inr []"
| "field_values s (f # fs) =
     (case rendered s f of
        None \<Rightarrow> Inl (KeyError f)
      | Some v \<Rightarrow> (case field_values s fs of
                     Inl e \<Rightarrow> Inl e
                   | Inr vs \<Rightarrow> Inr (v # vs)))"

definition row :: "base_image \<Rightarrow> exn + string" where
  "row s =
     (case field_values s (outputs s) of
        Inl e \<Rightarrow> Inl e
      | Inr vs \<Rightarrow> Inr (join [TAB] vs @ [TAB] @ join ''|'' (warnings s) @ [NL]))"

definition callback :: "arguments \<Rightarrow> overwrite \<Rightarrow> base_image option \<Rightarrow> run_state \<Rightarrow> exn + run_state" where
  "callback a flag res st =
     (case res of
        None \<Rightarrow> Inr st
      | Some s \<Rightarrow>
          (case rotation_due a st of
             Inl e \<Rightarrow> Inl e
           | Inr due \<Rightarrow>
               (let st1 = (if due then rotate a flag st else st);
                    st2 = write_header flag s st1
                in (case row s of
                      Inl e \<Rightarrow> Inl e
                    | Inr r \<Rightarrow> Inr ((csv_flush (csv_write r st2))\<lparr>nfiledone := nfiledone st2 + 1\<rparr>)))))"

text \<open>The callbacks of a run, in completion order; an exception stops the sequence.\<close>

fun callbacks :: "arguments \<Rightarrow> overwrite \<Rightarrow> base_image option list \<Rightarrow> run_state \<Rightarrow> exn + run_state" where
  "callbacks a flag [] st = Inr st"
| "callbacks a flag (r # rs) st =
     (case callback a flag r st of
        Inl e \<Rightarrow> Inl e
      | Inr st' \<Rightarrow> callbacks a flag rs st')"

section \<open>The worker\<close>

text \<open>
  A step's parameter map holds the strings of its configuration section and, once the
  worker has run, the two proxies of the shared coordination state.  A step
  (\<^verbatim>\<open>process\<close>) is a function of the repository's analysis modules, which are not
  part of the engine: it is modelled by its \<^verbatim>\<open>__name__\<close> and by what a call does to the
  item state (\<open>Inl\<close> when it raises).  What a step does to the shared dictionary is
  outside the engine and is not modelled.
\<close>

datatype param = Str string | Lock | Shared_dict

type_synonym params = "string \<rightharpoonup> param"

type_synonym process = "string \<times> (base_image \<Rightarrow> params \<Rightarrow> exn + base_image)"

type_synonym config_parser = "string \<rightharpoonup> (string \<times> string) list"

type_synonym loader = "string \<Rightarrow> string \<Rightarrow> params \<Rightarrow> exn + base_image"

datatype level = INFO | WARNING | ERROR

datatype event =
    Log level string
  | Rmtree string
  | Makedirs string
  | Load string string
  | Invoke string
  | Print_help
  | Symlink string string
  | Copy string string

text \<open>
  What the worker sees of the file system: the directories that exist, each with the
  names of its entries, and the trace of what has been done so far.
\<close>

record world =
  dirs :: "string \<rightharpoonup> string list"
  trace :: "event list"

definition emit :: "event \<Rightarrow> world \<Rightarrow> world" where
  "emit ev w = w\<lparr>trace := trace w @ [ev]\<rparr>"

definition basename :: "string \<Rightarrow> string" where
  "basename p = rev (takeWhile (\<lambda>c. c \<noteq> CHR ''/'') (rev p))"

definition isdir :: "world \<Rightarrow> string \<Rightarrow> bool" where
  "isdir w p = (dirs w p \<noteq> None)"

definition rmtree :: "string \<Rightarrow> world \<Rightarrow> world" where
  "rmtree p w = emit (Rmtree p) (w\<lparr>dirs := (dirs w)(p := None)\<rparr>)"

text \<open>
  \<^verbatim>\<open>make_dir_safe\<close>: \<^verbatim>\<open>os.makedirs\<close>, with the error for an existing directory
  swallowed.  Other \<^verbatim>\<open>OSError\<close>s (permissions, a file in the way) are not modelled.
\<close>

definition make_dir_safe :: "string \<Rightarrow> world \<Rightarrow> world" where
  "make_dir_safe p w =
     emit (Makedirs p) (if isdir w p then w else w\<lparr>dirs := (dirs w)(p \<mapsto> [])\<rparr>)"

definition dict :: "(string \<times> string) list \<Rightarrow> params" where
  "dict items = map_of (rev (map (\<lambda>(k, v). (k, Str v)) items))"

definition NoSectionError :: "string \<Rightarrow> exn" where
  "NoSectionError sec = \<lparr>cls = ''NoSectionError'', args = [sec], tb_code = ''items''\<rparr>"

definition skip_message :: "string \<Rightarrow> string" where
  "skip_message fname =
     fname @ '' already seems to be processed (output directory exists), skipping. ''
           @ ''To avoid this behavior use --force''"

definition working_message :: "nat \<Rightarrow> nat \<Rightarrow> string \<Rightarrow> string" where
  "working_message i nfiles fname =
     ''-----Working on:'' @ [TAB] @ fname @ [TAB, TAB] @ str_int (int i + 1) @ '' of ''
       @ str_int (int nfiles)"

text \<open>
  The loop over \<^verbatim>\<open>process_queue\<close>: the two proxies are stored into the step's own
  parameter map, the step is called, its name is appended to \<^verbatim>\<open>s["completed"]\<close>.
  The result is what became of the item state, the queue with the parameter maps as
  the loop left them, and the calls made.
\<close>

fun run_queue :: "base_image \<Rightarrow> (process \<times> params) list
    \<Rightarrow> (exn + base_image) \<times> (process \<times> params) list \<times> event list" where
  "run_queue s [] = (Inr s, [], [])"
| "run_queue s ((proc, process_params) # q) =
     (let p1 = process_params(''lock'' \<mapsto> Lock);
          p2 = p1(''shared_dict'' \<mapsto> Shared_dict)
      in (case snd proc s p2 of
            Inl e \<Rightarrow> (Inl e, (proc, p2) # q, [Invoke (fst proc)])
          | Inr s' \<Rightarrow>
              (case run_queue (s'\<lparr>completed := completed s' @ [fst proc]\<rparr>) q of
                 (r, q', evs) \<Rightarrow> (r, (proc, p2) # q', Invoke (fst proc) # evs))))"

definition load_and_run :: "loader \<Rightarrow> string \<Rightarrow> string \<Rightarrow> config_parser
    \<Rightarrow> (process \<times> params) list
    \<Rightarrow> (exn + base_image) \<times> (process \<times> params) list \<times> event list" where
  "load_and_run BaseImage fname fname_outdir lconfig process_queue =
     (case lconfig ''BaseImage.BaseImage'' of
        None \<Rightarrow> (Inl (NoSectionError ''BaseImage.BaseImage''), process_queue, [])
      | Some items \<Rightarrow>
          (case BaseImage fname fname_outdir (dict items) of
             Inl e \<Rightarrow> (Inl e, process_queue, [Load fname fname_outdir])
           | Inr s \<Rightarrow>
               (case run_queue s process_queue of
                  (r, q', evs) \<Rightarrow> (r, q', Load fname fname_outdir # evs))))"

definition pop_os_handle :: "base_image \<Rightarrow> base_image" where
  "pop_os_handle s = s\<lparr>os_handle := None, rendered := (rendered s)(''os_handle'' := None)\<rparr>"

text \<open>
  \<^verbatim>\<open>worker(i, nfiles, fname, args, lconfig, process_queue, lock, shared_dict)\<close>.
  It returns the task's result (\<open>Inl e\<close>: the task raised \<open>e\<close>; \<open>Inr None\<close>: the item was
  skipped; \<open>Inr (Some s)\<close>: the item state), the task's process queue as the loop left
  it, and the world.
\<close>

definition worker :: "loader \<Rightarrow> nat \<Rightarrow> nat \<Rightarrow> string \<Rightarrow> arguments \<Rightarrow> config_parser
    \<Rightarrow> (process \<times> params) list \<Rightarrow> world
    \<Rightarrow> (exn + base_image option) \<times> (process \<times> params) list \<times> world" where
  "worker BaseImage i nfiles fname a lconfig process_queue w =
     (let fname_outdir = outdir a @ os_sep @ basename fname
      in if isdir w fname_outdir \<and> \<not> force a
         then (Inr None, process_queue, emit (Log WARNING (skip_message fname)) w)
         else
           (let w1 = (if isdir w fname_outdir then rmtree fname_outdir w else w);
                w2 = make_dir_safe fname_outdir w1;
                w3 = emit (Log INFO (working_message i nfiles fname)) w2
            in (case load_and_run BaseImage fname fname_outdir lconfig process_queue of
                  (Inl e, q', evs) \<Rightarrow>
                    (Inl (e\<lparr>args := args e @ [fname, tb_code e]\<rparr>), q',
                     w3\<lparr>trace := trace w3 @ evs\<rparr>)
                | (Inr s, q', evs) \<Rightarrow>
                    (Inr (Some (pop_os_handle s)), q', w3\<lparr>trace := trace w3 @ evs\<rparr>))))"

text \<open>
  \<^verbatim>\<open>worker_error\<close>, the error callback: it appends the failure record to \<^verbatim>\<open>failed\<close>.
  \<^verbatim>\<open>e.args[1]\<close> raises \<^verbatim>\<open>IndexError\<close> on a shorter tuple.  \<open>doc\<close> stands for
  \<^verbatim>\<open>e.__doc__\<close>, \<open>msg\<close> for \<^verbatim>\<open>str(e)\<close> and \<open>cls e\<close> for \<^verbatim>\<open>str(e.__class__)\<close>; the
  line it logs is left out.  Nothing in \<^verbatim>\<open>main\<close> calls it: the argument
  \<^verbatim>\<open>error_callback=worker_error\<close> of \<^verbatim>\<open>apply_async\<close> is commented out.
\<close>

definition IndexError :: exn where
  "IndexError = \<lparr>cls = ''IndexError'', args = [''index out of range''], tb_code = []\<rparr>"

definition worker_error :: "string \<Rightarrow> string \<Rightarrow> exn \<Rightarrow> run_state \<Rightarrow> exn + run_state" where
  "worker_error doc msg e st =
     (case args e of
        _ # fname # _ \<Rightarrow>
          Inr (st\<lparr>failed := failed st @ [(fname, join '' '' [cls e, doc, msg, []])]\<rparr>)
      | _ \<Rightarrow> Inl IndexError)"

section \<open>Loading the pipeline\<close>

text \<open>
  \<^verbatim>\<open>load_pipeline(lconfig)\<close>.  The analysis modules are outside the engine: \<open>registry\<close>
  says which module names \<^verbatim>\<open>import_module\<close> finds and which attributes \<^verbatim>\<open>getattr\<close>
  finds in them.  \<open>in_main\<close> is \<^verbatim>\<open>multiprocessing.current_process()._identity == ()\<close>.
  The function appends one line to the global \<^verbatim>\<open>headers\<close>.
\<close>

type_synonym registry = "string \<rightharpoonup> (string \<rightharpoonup> process)"

definition splitlines :: "string \<Rightarrow> string list" where
  "splitlines s = (let ps = split NL s in if last ps = [] then butlast ps else ps)"

definition NoOptionError :: "string \<Rightarrow> string \<Rightarrow> exn" where
  "NoOptionError opt sec = \<lparr>cls = ''NoOptionError'', args = [opt, sec], tb_code = ''get''\<rparr>"

definition ValueError :: "string \<Rightarrow> exn" where
  "ValueError msg = \<lparr>cls = ''ValueError'', args = [msg], tb_code = []\<rparr>"

definition ModuleNotFoundError :: "string \<Rightarrow> exn" where
  "ModuleNotFoundError m =
     \<lparr>cls = ''ModuleNotFoundError'', args = [''No module named histoqc.'' @ m],
      tb_code = ''import_module''\<rparr>"

definition AttributeError :: "string \<Rightarrow> exn" where
  "AttributeError n = \<lparr>cls = ''AttributeError'', args = [n], tb_code = []\<rparr>"

fun resolve_steps :: "registry \<Rightarrow> bool \<Rightarrow> config_parser \<Rightarrow> string list
    \<Rightarrow> (exn + (process \<times> params) list) \<times> event list" where
  "resolve_steps reg in_main lconfig [] = (Inr [], [])"
| "resolve_steps reg in_main lconfig (step # steps) =
     (case split (CHR ''.'') step of
        [mod_name, func_name] \<Rightarrow>
          (let ev = (if in_main then [Log INFO ([TAB, TAB] @ mod_name @ [TAB] @ func_name)]
                     else [])
           in (case reg mod_name of
                 None \<Rightarrow> (Inl (ModuleNotFoundError mod_name), ev)
               | Some md \<Rightarrow>
                   (case split (CHR '':'') func_name of
                      [] \<Rightarrow> (Inl IndexError, ev)
                    | base # _ \<Rightarrow>
                        (case md base of
                           None \<Rightarrow> (Inl (AttributeError base), ev)
                         | Some func \<Rightarrow>
                             (let ps = (case lconfig step of
                                          Some items \<Rightarrow> dict items
                                        | None \<Rightarrow> Map.empty)
                              in (case resolve_steps reg in_main lconfig steps of
                                    (Inl e, evs) \<Rightarrow> (Inl e, ev @ evs)
                                  | (Inr q, evs) \<Rightarrow> (Inr ((func, ps) # q), ev @ evs)))))))
      | _ \<Rightarrow> (Inl (ValueError ''unpack''), []))"

definition load_pipeline :: "registry \<Rightarrow> bool \<Rightarrow> config_parser \<Rightarrow> string list
    \<Rightarrow> (exn + (process \<times> params) list) \<times> string list \<times> event list" where
  "load_pipeline reg in_main lconfig hs =
     (let ev0 = (if in_main then [Log INFO ''Pipeline will use these steps:''] else [])
      in (case lconfig ''pipeline'' of
            None \<Rightarrow> (Inl (NoSectionError ''pipeline''), hs, ev0)
          | Some items \<Rightarrow>
              (case map_of items ''steps'' of
                 None \<Rightarrow> (Inl (NoOptionError ''steps'' ''pipeline''), hs, ev0)
               | Some v \<Rightarrow>
                   (let steps = splitlines v;
                        hs' = hs @ [''pipeline: '' @ join '' '' steps]
                    in (case resolve_steps reg in_main lconfig steps of
                          (r, evs) \<Rightarrow> (r, hs', ev0 @ evs))))))"

section \<open>Enumerating the work items\<close>

text \<open>
  Iterating over a text file yields its lines with their line ends; no line is empty.
\<close>

fun readlines :: "string \<Rightarrow> string list" where
  "readlines [] = []"
| "readlines (c # cs) =
     (if c = NL then [NL] # readlines cs
      else (case readlines cs of
              [] \<Rightarrow> [[c]]
            | l # ls \<Rightarrow> (c # l) # ls))"

text \<open>
  The loop over the lines of a manifest: \<^verbatim>\<open>line[0]\<close> raises \<^verbatim>\<open>IndexError\<close> on an empty
  line, a line whose first character is \<^verbatim>\<open>#\<close> is skipped, any other line appends
  \<^verbatim>\<open>basepath + line.strip().split("\t")[0]\<close>.
\<close>

fun manifest_loop :: "string \<Rightarrow> string list \<Rightarrow> string list \<Rightarrow> exn + string list" where
  "manifest_loop bp [] files = Inr files"
| "manifest_loop bp (line # ls) files =
     (case line of
        [] \<Rightarrow> Inl IndexError
      | c # _ \<Rightarrow>
          (if c = CHR ''#'' then manifest_loop bp ls files
           else (case split TAB (strip line) of
                   [] \<Rightarrow> Inl IndexError
                 | col # _ \<Rightarrow> manifest_loop bp ls (files @ [bp @ col]))))"

text \<open>
  What \<^verbatim>\<open>main\<close> takes from outside: the command line, the clock, the parsed
  configuration file, the analysis modules and the item loader, and the file-system
  functions \<^verbatim>\<open>glob.glob\<close>, \<^verbatim>\<open>open(...).read\<close>, \<^verbatim>\<open>os.path.realpath\<close>,
  \<^verbatim>\<open>os.path.normpath\<close> and \<^verbatim>\<open>os.symlink\<close> (whether it succeeds).
\<close>

record env =
  argv :: "string list"
  now :: string
  lconfig :: config_parser
  modules :: registry
  BaseImage :: loader
  glob :: "string \<Rightarrow> string list"
  read_text :: "string \<rightharpoonup> string"
  realpath :: "string \<Rightarrow> string"
  normpath :: "string \<Rightarrow> string"
  symlink_ok :: "string \<Rightarrow> string \<Rightarrow> bool"

definition FileNotFoundError :: "string \<Rightarrow> exn" where
  "FileNotFoundError p = \<lparr>cls = ''FileNotFoundError'', args = [p], tb_code = []\<rparr>"

text \<open>
  Lines 192--211 of \<^verbatim>\<open>main\<close>, after the check that \<^verbatim>\<open>args.input_pattern\<close> is not
  empty: more than one pattern is taken as the list of files, a single pattern ending in
  \<^verbatim>\<open>tsv\<close> is read as a manifest, any other single pattern is given to \<^verbatim>\<open>glob\<close>
  behind \<^verbatim>\<open>args.basepath\<close> (without the separator).  \<open>base_prefix\<close> is the local
  \<^verbatim>\<open>basepath\<close>: \<^verbatim>\<open>args.basepath\<close> with the separator added when it is not empty.
\<close>

definition base_prefix :: "arguments \<Rightarrow> string" where
  "base_prefix a = (if length (basepath a) > 0 then basepath a @ os_sep else [])"

definition enumerate_files :: "env \<Rightarrow> arguments \<Rightarrow> exn + string list" where
  "enumerate_files ev a =
     (let bp = base_prefix a
      in (case input_pattern a of
            [] \<Rightarrow> Inr []
          | [p] \<Rightarrow>
              (if endswith p ''tsv''
               then (case read_text ev p of
                       None \<Rightarrow> Inl (FileNotFoundError p)
                     | Some content \<Rightarrow> manifest_loop bp (readlines content) [])
               else Inr (glob ev (basepath a @ p)))
          | ps \<Rightarrow> Inr ps))"

section \<open>The coordinator: \<^verbatim>\<open>main\<close>\<close>

text \<open>
  The model follows the schedule of a single worker process: the tasks run in
  submission order, each task's callback runs when the task completes, and
  \<^verbatim>\<open>r.get\<close> is read in submission order.  \<^verbatim>\<open>r.get\<close> re-raises in \<^verbatim>\<open>main\<close> what the
  task raised (no \<^verbatim>\<open>error_callback\<close> is passed to \<^verbatim>\<open>apply_async\<close>).  An exception in
  the callback ends the pool's result thread, so the result never arrives and
  \<^verbatim>\<open>r.get\<close> raises \<^verbatim>\<open>TimeoutError\<close>.  Every task receives its own copy of
  \<^verbatim>\<open>process_queue\<close>; what a task stores into it is not seen by the next.  The pool's
  initializer runs \<^verbatim>\<open>load_pipeline\<close> once more in every worker process; its result is
  dropped and what it appends to \<^verbatim>\<open>headers\<close> stays in that process, so it does not
  appear here.  The value \<^verbatim>\<open>r.get\<close> returns is only logged.
\<close>

definition TimeoutError :: exn where
  "TimeoutError = \<lparr>cls = ''TimeoutError'', args = [], tb_code = ''get''\<rparr>"

text \<open>
  The paths handed to \<^verbatim>\<open>apply_async\<close>, in submission order: every enumerated file,
  through \<^verbatim>\<open>os.path.realpath\<close>.
\<close>

definition submitted :: "env \<Rightarrow> string list \<Rightarrow> string list" where
  "submitted ev fnames = map (realpath ev) fnames"

fun dispatch :: "env \<Rightarrow> arguments \<Rightarrow> overwrite \<Rightarrow> (process \<times> params) list \<Rightarrow> nat \<Rightarrow> nat
    \<Rightarrow> string list \<Rightarrow> run_state \<Rightarrow> world \<Rightarrow> (exn + unit) \<times> run_state \<times> world" where
  "dispatch ev a flag q i n [] st w = (Inr (), st, w)"
| "dispatch ev a flag q i n (fname # fnames) st w =
     (case worker (BaseImage ev) i n fname a (lconfig ev) q w of
        (Inl e, _, w') \<Rightarrow> (Inl e, st, w')
      | (Inr res, _, w') \<Rightarrow>
          (case callback a flag res st of
             Inl e \<Rightarrow> (Inl TimeoutError, st, w')
           | Inr st' \<Rightarrow> dispatch ev a flag q (Suc i) n fnames st' w'))"

definition initial_globals :: "(string \<rightharpoonup> string) \<Rightarrow> run_state" where
  "initial_globals fs =
     \<lparr>batch = 1, nfiledone = 0, first = True, failed = [], headers = [],
      csv_report = [], unflushed = [], disk = fs\<rparr>"

definition overwrite_flag :: "env \<Rightarrow> arguments \<Rightarrow> overwrite" where
  "overwrite_flag ev a =
     (if length (glob ev (outdir a @ os_sep @ ''results*.tsv'')) > 0
      then (if force a then W else A)
      else W)"

definition previous_run_log :: "env \<Rightarrow> arguments \<Rightarrow> event list" where
  "previous_run_log ev a =
     (if length (glob ev (outdir a @ os_sep @ ''results*.tsv'')) > 0
      then (if force a
            then [Log INFO ''Previous run detected....overwriting (--force set)'']
            else [Log INFO ''Previous run detected....skipping completed (--force not set)''])
      else [])"

definition first_report :: "arguments \<Rightarrow> run_state \<Rightarrow> string" where
  "first_report a st =
     (case args_batch a of
        Some b \<Rightarrow> results_name (outdir a) (batch st)
      | None \<Rightarrow> outdir a @ os_sep @ ''results.tsv'')"

definition open_first_report :: "arguments \<Rightarrow> overwrite \<Rightarrow> run_state \<Rightarrow> run_state" where
  "open_first_report a flag st = open_report (first_report a st) flag st"

definition failure_summary :: "(string \<times> string) list \<Rightarrow> event list" where
  "failure_summary fl =
     (if fl = [] then []
      else Log INFO (''These images failed (available also in error.log), ''
                      @ ''warnings are listed in warnings column in output:'')
           # map (\<lambda>(fname, err). Log INFO (fname @ [TAB] @ err)) fl)"

definition data_dir :: string where
  "data_dir = ''/app/data/ui/data/''"

definition finalize :: "env \<Rightarrow> arguments \<Rightarrow> run_state \<Rightarrow> world \<Rightarrow> run_state \<times> world" where
  "finalize ev a st w =
     (let st' = csv_close st;
          w1 = emit (Log INFO (''------------Done---------'' @ [NL])) w;
          w2 = w1\<lparr>trace := trace w1 @ failure_summary (failed st')\<rparr>;
          w3 = (if symlinkoff a then w2
                else (let origin = realpath ev (outdir a);
                          w' = make_dir_safe data_dir w2;
                          target = data_dir @ basename (normpath ev (outdir a))
                      in if symlink_ok ev origin target
                         then emit (Log INFO ''Symlink to output directory created'')
                                (emit (Symlink origin target) w')
                         else emit (Log ERROR (''Error creating symlink to output in ''
                                @ ''UserInterface/Data, need to perform this manually for ''
                                @ ''output to work! ln -s '' @ origin @ '' '' @ target)) w'))
      in (st', emit (Copy ''error.log'' (outdir a @ os_sep @ ''error.log'')) w3))"

datatype outcome = Exit int | Raised exn | Done

definition main :: "env \<Rightarrow> arguments \<Rightarrow> (string \<rightharpoonup> string) \<Rightarrow> world
    \<Rightarrow> outcome \<times> run_state \<times> world" where
  "main ev a fs w0 =
     (let st0 = (initial_globals fs)\<lparr>headers := [''start_time:'' @ [TAB] @ now ev]\<rparr>
      in if length (argv ev) = 1 then (Exit 1, st0, emit Print_help w0)
         else
           (case load_pipeline (modules ev) True (lconfig ev) (headers st0) of
              (Inl e, hs, evs) \<Rightarrow> (Raised e, st0\<lparr>headers := hs\<rparr>, w0\<lparr>trace := trace w0 @ evs\<rparr>)
            | (Inr process_queue, hs, evs) \<Rightarrow>
                (let w1 = emit (Log INFO ''----------'') (w0\<lparr>trace := trace w0 @ evs\<rparr>);
                     w1' = make_dir_safe (outdir a) w1;
                     w2 = w1'\<lparr>trace := trace w1' @ previous_run_log ev a\<rparr>;
                     st1 = st0\<lparr>headers := hs @
                             [''outdir:'' @ [TAB] @ realpath ev (outdir a),
                              ''config_file:'' @ [TAB] @ realpath ev (config a),
                              ''command_line_args:'' @ [TAB] @ join '' '' (argv ev)]\<rparr>;
                     flag = overwrite_flag ev a;
                     st2 = open_first_report a flag st1
                 in (case input_pattern a of
                       [] \<Rightarrow> (Exit 1, st2, emit (Log ERROR ''No imput files given'') w2)
                     | _ \<Rightarrow>
                         (case enumerate_files ev a of
                            Inl e \<Rightarrow> (Raised e, st2, w2)
                          | Inr fnames \<Rightarrow>
                              (let n = length fnames;
                                   w3 = emit (Log INFO (''Number of files detected by pattern:''
                                          @ [TAB] @ str_int (int n))) w2
                               in (case dispatch ev a flag process_queue 0 n (submitted ev fnames) st2 w3 of
                                     (Inl e, st3, w4) \<Rightarrow> (Raised e, st3, w4)
                                   | (Inr u, st3, w4) \<Rightarrow>
                                       (case finalize ev a st3 w4 of
                                          (st4, w5) \<Rightarrow> (Done, st4, w5)))))))))"

section \<open>Vocabulary of the properties\<close>

text \<open>
  An item state is \<open>renderable\<close> when every field named in \<^verbatim>\<open>s["output"]\<close> is a key
  of the dictionary, so that building its row raises no \<^verbatim>\<open>KeyError\<close>.
  \<open>completed_count\<close> counts the tasks of a list that returned an item state.
  \<open>start_state a flag fs hs\<close> is the coordinator's state when the first callback runs:
  the globals as the module initialises them, the files \<open>fs\<close> on disk, the metadata lines
  \<open>hs\<close> collected in \<^verbatim>\<open>headers\<close>, and the first report file opened.
  \<open>aligned a B c st\<close> relates the coordinator's state to the number \<open>c\<close> of rows written
  so far: the counter is \<open>c\<close>, the batch number is the one the \<open>c\<close>-th row went to, and
  the open file is the file of that batch.
\<close>

definition start_state :: "arguments \<Rightarrow> overwrite \<Rightarrow> (string \<rightharpoonup> string) \<Rightarrow> string list \<Rightarrow> run_state" where
  "start_state a flag fs hs = open_first_report a flag ((initial_globals fs)\<lparr>headers := hs\<rparr>)"

definition renderable :: "base_image \<Rightarrow> bool" where
  "renderable s = list_all (\<lambda>f. rendered s f \<noteq> None) (outputs s)"

definition completed_count :: "base_image option list \<Rightarrow> int" where
  "completed_count rs = int (length (filter (\<lambda>r. r \<noteq> None) rs))"

definition aligned :: "arguments \<Rightarrow> int \<Rightarrow> int \<Rightarrow> run_state \<Rightarrow> bool" where
  "aligned a B c st =
     (nfiledone st = c \<and> batch st = (if c = 0 then 1 else (c - 1) div B + 1) \<and>
      csv_report st = results_name (outdir a) (batch st))"

text \<open>
  How a reader of the report splits a line: \<open>columns\<close> cuts the line at its line end and
  splits it at the tabs.  A string is \<open>plain\<close> when it holds neither a tab nor a line
  end; an item state is \<open>tabular\<close> when it names at least one output field, every
  output field is set to a plain string and every warning is plain.
\<close>

definition columns :: "string \<Rightarrow> string list" where
  "columns line = split TAB (takeWhile (\<lambda>c. c \<noteq> NL) line)"

definition plain :: "string \<Rightarrow> bool" where
  "plain v = (TAB \<notin> set v \<and> NL \<notin> set v)"

definition tabular :: "base_image \<Rightarrow> bool" where
  "tabular s =
     (outputs s \<noteq> [] \<and>
      list_all (\<lambda>f. case rendered s f of None \<Rightarrow> False | Some v \<Rightarrow> plain v) (outputs s) \<and>
      list_all plain (warnings s))"

text \<open>
  \<open>successes rs\<close> are the item states of the tasks that returned one, in completion
  order.  \<open>report_text hs cur\<close> is what a report file written anew holds once the
  items \<open>cur\<close> have been written to it: nothing when there is none; otherwise the metadata
  lines, the header line of the first item, and the rows.  \<open>fresh hs cur st\<close> says that the
  open report file of \<open>st\<close> is in that state, with nothing pending and with \<^verbatim>\<open>first\<close>
  still set exactly when no item has been written to it.
\<close>

definition successes :: "base_image option list \<Rightarrow> base_image list" where
  "successes rs = concat (map (\<lambda>r. case r of None \<Rightarrow> [] | Some s \<Rightarrow> [s]) rs)"

definition row_text :: "base_image \<Rightarrow> string" where
  "row_text s = (case row s of Inl e \<Rightarrow> [] | Inr r \<Rightarrow> r)"

definition report_text :: "string list \<Rightarrow> base_image list \<Rightarrow> string" where
  "report_text hs cur =
     (case cur of
        [] \<Rightarrow> []
      | s # rest \<Rightarrow> metadata_lines hs @ header_line s @ concat (map row_text cur))"


text \<open>
  \<open>injected ps\<close> is a parameter map after the worker has stored the two proxies of the
  shared coordination state into it.  \<open>raise_from fname\<close> and \<open>task_result\<close> are what the
  worker does with the outcome of loading the item and running the steps: an exception
  gets the item path and the faulting code object appended to its \<^verbatim>\<open>args\<close> and is
  raised again; an item state loses its \<^verbatim>\<open>os_handle\<close> and is returned.
\<close>

definition injected :: "params \<Rightarrow> params" where
  "injected ps = ps(''lock'' \<mapsto> Lock, ''shared_dict'' \<mapsto> Shared_dict)"

definition task_result :: "string \<Rightarrow> exn + base_image \<Rightarrow> exn + base_image option" where
  "task_result fname r =
     (case r of
        Inl e \<Rightarrow> Inl (e\<lparr>args := args e @ [fname, tb_code e]\<rparr>)
      | Inr s \<Rightarrow> Inr (Some (pop_os_handle s)))"

text \<open>
  \<open>section_params cfg step\<close> is the parameter map \<^verbatim>\<open>load_pipeline\<close> builds for a step:
  the items of the configuration section named like the step, or the empty map.
  \<open>touched q q'\<close> relates a process queue to what a task leaves of it: the same steps,
  each parameter map either as it was or with the two proxies stored into it.
\<close>

definition section_params :: "config_parser \<Rightarrow> string \<Rightarrow> params" where
  "section_params cfg step = (case cfg step of Some items \<Rightarrow> dict items | None \<Rightarrow> Map.empty)"

definition touched :: "(process \<times> params) list \<Rightarrow> (process \<times> params) list \<Rightarrow> bool" where
  "touched q q' =
     list_all2 (\<lambda>x y. fst y = fst x \<and> (snd y = snd x \<or> snd y = injected (snd x))) q q'"

text \<open>
  A manifest line \<open>is_comment\<close> when its first character is \<^verbatim>\<open>#\<close>.  \<open>first_column\<close> is
  the first tab-separated column of a line once the white space around the line (its line
  end included) is stripped.  \<open>manifest_entries\<close> is what each line contributes: nothing
  for a comment, one entry otherwise.  A path \<open>is_abs\<close> when it starts with the separator.
\<close>

definition is_comment :: "string \<Rightarrow> bool" where
  "is_comment line = (case line of [] \<Rightarrow> False | c # cs \<Rightarrow> c = CHR ''#'')"

definition first_column :: "string \<Rightarrow> string" where
  "first_column line = (case split TAB (strip line) of [] \<Rightarrow> [] | col # cols \<Rightarrow> col)"

definition manifest_entries :: "string \<Rightarrow> string list \<Rightarrow> string list" where
  "manifest_entries bp ls = concat (map (\<lambda>l. if is_comment l then [] else [bp @ first_column l]) ls)"


text \<open>
  An event is an \<open>item_event\<close> when it is a call of the loader or of a step.
  \<open>start_line ev\<close> is the first metadata line \<^verbatim>\<open>main\<close> collects.
\<close>

definition item_event :: "event \<Rightarrow> bool" where
  "item_event e = (case e of Load f d \<Rightarrow> True | Invoke nm \<Rightarrow> True | _ \<Rightarrow> False)"

definition start_line :: "env \<Rightarrow> string" where
  "start_line ev = ''start_time:'' @ [TAB] @ now ev"


section \<open>Example inputs\<close>

definition slide :: "string \<Rightarrow> base_image" where
  "slide n =
     \<lparr>outputs = [''filename'', ''comments''], warnings = [''w1'', ''w2''], completed = [],
      os_handle = None, rendered = [''filename'' \<mapsto> n, ''comments'' \<mapsto> ''ok'']\<rparr>"

definition demo_args :: arguments where
  "demo_args =
     \<lparr>input_pattern = [''a.svs'', ''b.svs''], outdir = ''out'', basepath = [],
      config = ''config.ini'', force = False, args_batch = Some 2, nthreads = 1,
      symlinkoff = True\<rparr>"

definition demo_start :: "arguments \<Rightarrow> overwrite \<Rightarrow> run_state" where
  "demo_start a flag = start_state a flag Map.empty [''start_time:0'']"

definition tabbed_slide :: base_image where
  "tabbed_slide = (slide ''A'')\<lparr>rendered := (rendered (slide ''A''))(''comments'' \<mapsto> ''see'' @ [TAB] @ ''note'')\<rparr>"

definition bare_slide :: base_image where
  "bare_slide = (slide ''A'')\<lparr>outputs := []\<rparr>"

text \<open>
  A small installation: a pipeline of two steps, the second of which raises for the
  slide \<^verbatim>\<open>/cwd/a.svs\<close> only; a loader that always succeeds; no previous results.
\<close>

definition demo_config :: config_parser where
  "demo_config =
     [''pipeline'' \<mapsto> [(''steps'', ''Mod.stepA'' @ [NL] @ ''Mod.stepB:v2'')],
      ''BaseImage.BaseImage'' \<mapsto> [(''image_work_size'', ''1.25x'')],
      ''Mod.stepA'' \<mapsto> [(''k'', ''v'')]]"

definition step_ok :: "base_image \<Rightarrow> params \<Rightarrow> exn + base_image" where
  "step_ok s p = Inr s"

definition step_picky :: "base_image \<Rightarrow> params \<Rightarrow> exn + base_image" where
  "step_picky s p =
     (if rendered s ''filename'' = Some ''/cwd/a.svs''
      then Inl \<lparr>cls = ''RuntimeError'', args = [''bad slide''], tb_code = ''stepB''\<rparr>
      else Inr s)"

definition demo_modules :: registry where
  "demo_modules =
     [''Mod'' \<mapsto> [''stepA'' \<mapsto> (''stepA'', step_ok), ''stepB'' \<mapsto> (''stepB'', step_picky)]]"

definition demo_loader :: loader where
  "demo_loader fname fname_outdir ps =
     Inr \<lparr>outputs = [''filename''], warnings = [], completed = [], os_handle = Some ''handle'',
          rendered = [''filename'' \<mapsto> fname, ''os_handle'' \<mapsto> ''handle'']\<rparr>"

definition demo_realpath :: "string \<Rightarrow> string" where
  "demo_realpath p =
     (case p of
        [] \<Rightarrow> ''/cwd''
      | c # cs \<Rightarrow> if c = CHR ''/'' then p else ''/cwd/'' @ p)"

definition demo_env :: env where
  "demo_env =
     \<lparr>argv = [''qc_pipeline.py'', ''a.svs'', ''b.svs''], now = ''2020-01-01'',
      lconfig = demo_config, modules = demo_modules, BaseImage = demo_loader,
      glob = (\<lambda>p. []), read_text = Map.empty, realpath = demo_realpath,
      normpath = (\<lambda>p. p), symlink_ok = (\<lambda>origin target. True)\<rparr>"

definition demo_world :: world where
  "demo_world = \<lparr>dirs = Map.empty, trace = []\<rparr>"

definition demo_queue :: "(process \<times> params) list" where
  "demo_queue = [((''stepA'', step_ok), [''k'' \<mapsto> Str ''v'']), ((''stepB'', step_picky), Map.empty)]"


definition demo_manifest :: string where
  "demo_manifest =
     ''a.svs'' @ [TAB] @ ''ok'' @ [NL] @ ''#dataset:filename'' @ [NL] @ ''b.svs'' @ [NL]"

definition manifest_env :: env where
  "manifest_env =
     demo_env\<lparr>argv := [''qc_pipeline.py'', ''-p'', ''/data'', ''list.tsv''],
               read_text := [''list.tsv'' \<mapsto> demo_manifest]\<rparr>"

definition manifest_args :: arguments where
  "manifest_args = demo_args\<lparr>input_pattern := [''list.tsv''], basepath := ''/data''\<rparr>"



definition glob_args :: arguments where
  "glob_args = demo_args\<lparr>input_pattern := [''*.svs'']\<rparr>"

definition nomatch_env :: env where
  "nomatch_env = demo_env\<lparr>argv := [''qc_pipeline.py'', ''*.svs'']\<rparr>"

definition comments_env :: env where
  "comments_env =
     demo_env\<lparr>argv := [''qc_pipeline.py'', ''list.tsv''],
               read_text := [''list.tsv'' \<mapsto> ''#dataset:filename'' @ [NL]]\<rparr>"

definition noargs_env :: env where
  "noargs_env = demo_env\<lparr>argv := [''qc_pipeline.py'']\<rparr>"

definition force_only_env :: env where
  "force_only_env = demo_env\<lparr>argv := [''qc_pipeline.py'', ''-f'']\<rparr>"

definition force_only_args :: arguments where
  "force_only_args = demo_args\<lparr>input_pattern := [], force := True\<rparr>"

definition bad_slide :: exn where
  "bad_slide =
     \<lparr>cls = ''RuntimeError'', args = [''bad slide'', ''/cwd/a.svs'', ''stepB''], tb_code = ''stepB''\<rparr>"

section \<open>Properties of the aggregator\<close>

text \<open>
  C10.  A task that returns no item state (the worker skipped the item) leaves the
  coordinator's state exactly as it was: no row, no header, the counter unchanged.
  So a run's callbacks do exactly what they do on the completed items alone: skipped
  items count for nothing in the batch rotation.
\<close>

theorem callback_None_noop:
  "callback a flag None st = Inr st \<and>
   callbacks a flag rs st = callbacks a flag (map Some (successes rs)) st"
proof
  show "callback a flag None st = Inr st" by (simp add: callback_def)
  show "callbacks a flag rs st = callbacks a flag (map Some (successes rs)) st"
  proof (induction rs arbitrary: st)
    case Nil
    show ?case by (simp add: successes_def)
  next
    case (Cons x rs)
    show ?case
    proof (cases x)
      case None
      then show ?thesis using Cons.IH by (simp add: callback_def successes_def)
    next
      case (Some s)
      then show ?thesis using Cons.IH by (simp add: successes_def split: sum.splits)
    qed
  qed
qed

lemma field_values_total:
  "list_all (\<lambda>f. rendered s f \<noteq> None) fs \<Longrightarrow> \<exists>vs. field_values s fs = Inr vs \<and> length vs = length fs"
  by (induction fs) auto

lemma row_total: "renderable s \<Longrightarrow> \<exists>r. row s = Inr r"
  using field_values_total [of s "outputs s"] by (auto simp: renderable_def row_def)

lemma rotation_due_pos:
  "args_batch a = Some B \<Longrightarrow> B \<noteq> 0 \<Longrightarrow>
   rotation_due a st = Inr (nfiledone st \<noteq> 0 \<and> nfiledone st mod B = 0)"
  by (simp add: rotation_due_def)

lemma callback_Some:
  assumes "rotation_due a st = Inr due" "row s = Inr r"
  shows "callback a flag (Some s) st =
    Inr ((csv_flush (csv_write r (write_header flag s (if due then rotate a flag st else st))))
          \<lparr>nfiledone := nfiledone (write_header flag s (if due then rotate a flag st else st)) + 1\<rparr>)"
  using assms by (simp add: callback_def Let_def)

lemma write_header_fields [simp]:
  "nfiledone (write_header flag s st) = nfiledone st"
  "batch (write_header flag s st) = batch st"
  "csv_report (write_header flag s st) = csv_report st"
  "disk (write_header flag s st) = disk st"
  "headers (write_header flag s st) = headers st"
  "failed (write_header flag s st) = failed st"
  by (simp_all add: write_header_def csv_write_def)

lemma rotate_fields [simp]:
  "nfiledone (rotate a flag st) = nfiledone st"
  "batch (rotate a flag st) = batch st + 1"
  "csv_report (rotate a flag st) = results_name (outdir a) (batch st + 1)"
  "first (rotate a flag st)"
  "unflushed (rotate a flag st) = []"
  "headers (rotate a flag st) = headers st"
  "failed (rotate a flag st) = failed st"
  by (simp_all add: rotate_def open_report_def csv_close_def csv_flush_def)

lemma flush_write_fields [simp]:
  "nfiledone (csv_flush (csv_write r st)) = nfiledone st"
  "batch (csv_flush (csv_write r st)) = batch st"
  "csv_report (csv_flush (csv_write r st)) = csv_report st"
  "first (csv_flush (csv_write r st)) = first st"
  "unflushed (csv_flush (csv_write r st)) = []"
  "headers (csv_flush (csv_write r st)) = headers st"
  "failed (csv_flush (csv_write r st)) = failed st"
  by (simp_all add: csv_flush_def csv_write_def on_disk_def)

lemma row_lands:
  "disk ((csv_flush (csv_write r st))\<lparr>nfiledone := n\<rparr>)
     (csv_report ((csv_flush (csv_write r st))\<lparr>nfiledone := n\<rparr>)) =
   Some ((on_disk st (csv_report st) @ unflushed st) @ r)"
  by (simp add: csv_flush_def csv_write_def on_disk_def)

lemma div_step:
  fixes c B :: int
  assumes "0 < B" "0 \<le> c"
  shows "(if c \<noteq> 0 \<and> c mod B = 0 then (if c = 0 then 1 else (c - 1) div B + 1) + 1
          else (if c = 0 then 1 else (c - 1) div B + 1)) = c div B + 1"
proof (cases "c = 0")
  case True
  then show ?thesis by simp
next
  case False
  define q where "q = c div B"
  define r where "r = c mod B"
  have c: "c = B * q + r" by (simp add: q_def r_def)
  have r: "0 \<le> r" "r < B" using assms by (simp_all add: r_def)
  show ?thesis
  proof (cases "r = 0")
    case True
    have "c - 1 = B * (q - 1) + (B - 1)" using c True by (simp add: algebra_simps)
    then have "(c - 1) div B = q - 1"
      using assms by (intro int_div_pos_eq [where r = "B - 1"]) simp_all
    with False True show ?thesis by (simp add: q_def r_def)
  next
    case nz: False
    have "c - 1 = B * q + (r - 1)" using c by simp
    then have "(c - 1) div B = q"
      using r nz by (intro int_div_pos_eq [where r = "r - 1"]) simp_all
    with False nz show ?thesis by (simp add: q_def r_def)
  qed
qed


lemma callback_aligned:
  assumes B: "args_batch a = Some B" "0 < B"
    and al: "aligned a B c st" and c: "0 \<le> c" and r: "row s = Inr r"
  shows "\<exists>st'. callback a flag (Some s) st = Inr st' \<and> aligned a B (c + 1) st' \<and>
           (\<exists>old. disk st' (csv_report st') = Some (old @ r))"
proof -
  let ?due = "nfiledone st \<noteq> 0 \<and> nfiledone st mod B = 0"
  let ?st1 = "if ?due then rotate a flag st else st"
  let ?st2 = "write_header flag s ?st1"
  let ?st' = "(csv_flush (csv_write r ?st2))\<lparr>nfiledone := nfiledone ?st2 + 1\<rparr>"
  have due: "rotation_due a st = Inr ?due"
    using B by (simp add: rotation_due_pos)
  have cb: "callback a flag (Some s) st = Inr ?st'"
    using callback_Some [OF due r] .
  have n: "nfiledone st = c" and b: "batch st = (if c = 0 then 1 else (c - 1) div B + 1)"
    and f: "csv_report st = results_name (outdir a) (batch st)"
    using al by (simp_all add: aligned_def)
  have b1: "batch ?st1 = c div B + 1"
    using div_step [OF B(2) c] n b by (simp split: if_splits)
  have f1: "csv_report ?st1 = results_name (outdir a) (batch ?st1)"
    using f by simp
  have n1: "nfiledone ?st1 = c" using n by simp
  have "aligned a B (c + 1) ?st'"
    using b1 f1 n1 c by (simp add: aligned_def)
  moreover have "disk ?st' (csv_report ?st') = Some ((on_disk ?st2 (csv_report ?st2) @ unflushed ?st2) @ r)"
    by (rule row_lands)
  ultimately show ?thesis using cb by blast
qed

lemma callbacks_aligned:
  assumes B: "args_batch a = Some B" "0 < B"
  shows "aligned a B c st \<Longrightarrow> 0 \<le> c \<Longrightarrow> list_all (\<lambda>r. case r of None \<Rightarrow> True | Some s \<Rightarrow> renderable s) rs \<Longrightarrow>
         \<exists>st'. callbacks a flag rs st = Inr st' \<and> aligned a B (c + completed_count rs) st'"
proof (induction rs arbitrary: c st)
  case Nil
  then show ?case by (simp add: completed_count_def)
next
  case (Cons x rs)
  show ?case
  proof (cases x)
    case None
    have "callback a flag x st = Inr st" using None by (simp add: callback_def)
    moreover have "completed_count (x # rs) = completed_count rs"
      using None by (simp add: completed_count_def)
    ultimately show ?thesis using Cons.IH [of c st] Cons.prems by simp
  next
    case (Some s)
    with Cons.prems have "renderable s" by simp
    then obtain r where r: "row s = Inr r" using row_total by blast
    obtain st1 where st1: "callback a flag (Some s) st = Inr st1" "aligned a B (c + 1) st1"
      using callback_aligned [OF B Cons.prems(1,2) r] by blast
    have cnt: "completed_count (x # rs) = 1 + completed_count rs"
      using Some by (simp add: completed_count_def)
    obtain st' where "callbacks a flag rs st1 = Inr st'" "aligned a B (c + 1 + completed_count rs) st'"
      using Cons.IH [OF st1(2)] Cons.prems by auto
    then show ?thesis using st1 Some cnt by (simp add: add.assoc)
  qed
qed

lemma initially_aligned:
  assumes "args_batch a = Some B"
  shows "aligned a B 0 (start_state a flag fs hs)"
  using assms
  by (simp add: aligned_def start_state_def open_first_report_def open_report_def
      first_report_def initial_globals_def)

lemma aligned_due:
  assumes "args_batch a = Some B" "0 < B" "aligned a B c st"
  shows "rotation_due a st = Inr (c \<noteq> 0 \<and> c mod B = 0)"
  using assms by (simp add: rotation_due_pos aligned_def)

text \<open>
  C2 (as amended: batch size at least one).  Let the run have batch size \<open>B \<ge> 1\<close> and
  let the tasks \<open>rs\<close> have completed (in any order, skipped items among them), every
  completed item being renderable.  Then the callbacks succeed, and the callback of the
  next completed item \<open>s\<close>, which is completed item number \<open>c = completed_count rs + 1\<close>,
  writes its row to the report file with suffix \<open>(c - 1) div B + 1\<close>, which is then the
  open file and the value of \<^verbatim>\<open>batch\<close>.  The rotation test of that callback holds
  exactly when the counter is a positive multiple of \<open>B\<close>, and a rotation increments the
  suffix by one, opens the file of that name and sets \<^verbatim>\<open>first\<close> again.
\<close>

theorem batch_rotation:
  assumes B: "args_batch a = Some B" "0 < B"
    and rs: "list_all (\<lambda>r. case r of None \<Rightarrow> True | Some s \<Rightarrow> renderable s) rs"
    and s: "renderable s"
  shows "\<exists>st st' r. callbacks a flag rs (start_state a flag fs hs) = Inr st \<and>
           callback a flag (Some s) st = Inr st' \<and> row s = Inr r \<and>
           nfiledone st = completed_count rs \<and>
           rotation_due a st = Inr (completed_count rs \<noteq> 0 \<and> completed_count rs mod B = 0) \<and>
           batch (rotate a flag st) = batch st + 1 \<and>
           csv_report (rotate a flag st) = results_name (outdir a) (batch st + 1) \<and>
           first (rotate a flag st) \<and>
           batch st' = completed_count rs div B + 1 \<and>
           csv_report st' = results_name (outdir a) (completed_count rs div B + 1) \<and>
           (\<exists>old. disk st' (results_name (outdir a) (completed_count rs div B + 1)) = Some (old @ r))"
proof -
  have c0: "0 \<le> completed_count rs" by (simp add: completed_count_def)
  have al0: "aligned a B 0 (start_state a flag fs hs)"
    by (rule initially_aligned [OF B(1)])
  have "\<exists>st. callbacks a flag rs (start_state a flag fs hs) = Inr st \<and>
          aligned a B (0 + completed_count rs) st"
    by (rule callbacks_aligned [OF B al0 _ rs]) simp
  then obtain st where st: "callbacks a flag rs (start_state a flag fs hs) = Inr st"
      "aligned a B (completed_count rs) st"
    by auto
  obtain r where r: "row s = Inr r" using row_total [OF s] by blast
  obtain st' where st': "callback a flag (Some s) st = Inr st'"
      "aligned a B (completed_count rs + 1) st'" "\<exists>old. disk st' (csv_report st') = Some (old @ r)"
    using callback_aligned [OF B st(2) c0 r, of flag] by auto
  have b: "batch st' = completed_count rs div B + 1"
    using st'(2) c0 by (simp add: aligned_def)
  have f: "csv_report st' = results_name (outdir a) (completed_count rs div B + 1)"
    using st'(2) c0 by (simp add: aligned_def)
  have n: "nfiledone st = completed_count rs"
    using st(2) by (simp add: aligned_def)
  have d: "rotation_due a st = Inr (completed_count rs \<noteq> 0 \<and> completed_count rs mod B = 0)"
    by (rule aligned_due [OF B st(2)])
  have "callbacks a flag rs (start_state a flag fs hs) = Inr st \<and>
           callback a flag (Some s) st = Inr st' \<and> row s = Inr r \<and>
           nfiledone st = completed_count rs \<and>
           rotation_due a st = Inr (completed_count rs \<noteq> 0 \<and> completed_count rs mod B = 0) \<and>
           batch (rotate a flag st) = batch st + 1 \<and>
           csv_report (rotate a flag st) = results_name (outdir a) (batch st + 1) \<and>
           first (rotate a flag st) \<and>
           batch st' = completed_count rs div B + 1 \<and>
           csv_report st' = results_name (outdir a) (completed_count rs div B + 1) \<and>
           (\<exists>old. disk st' (results_name (outdir a) (completed_count rs div B + 1)) = Some (old @ r))"
    using st(1) st'(1,3) r n d b f by simp
  then show ?thesis by blast
qed

text \<open>
  The theorem at batch size 2: after two completed items and one skipped one, the third
  completed item goes to \<^verbatim>\<open>out/results_2.tsv\<close>.
\<close>

theorem batch_rotation_witness:
  "\<exists>st st' r. callbacks demo_args W [Some (slide ''A''), None, Some (slide ''B'')] (demo_start demo_args W) = Inr st \<and>
      callback demo_args W (Some (slide ''C'')) st = Inr st' \<and> row (slide ''C'') = Inr r \<and>
      batch st' = 2 \<and> csv_report st' = ''out/results_2.tsv'' \<and>
      (\<exists>old. disk st' ''out/results_2.tsv'' = Some (old @ r))"
proof -
  have a: "args_batch demo_args = Some 2" by (simp add: demo_args_def)
  have rs: "list_all (\<lambda>r. case r of None \<Rightarrow> True | Some s \<Rightarrow> renderable s)
              [Some (slide ''A''), None, Some (slide ''B'')]"
    by (simp add: renderable_def slide_def)
  have s: "renderable (slide ''C'')" by (simp add: renderable_def slide_def)
  have c: "completed_count [Some (slide ''A''), None, Some (slide ''B'')] = 2"
    by (simp add: completed_count_def)
  have n: "results_name (outdir demo_args) 2 = ''out/results_2.tsv''"
    by code_simp
  obtain st st' r where
    "callbacks demo_args W [Some (slide ''A''), None, Some (slide ''B'')]
       (start_state demo_args W Map.empty [''start_time:0'']) = Inr st"
    "callback demo_args W (Some (slide ''C'')) st = Inr st'" "row (slide ''C'') = Inr r"
    "batch st' = 2" "csv_report st' = ''out/results_2.tsv''"
    "\<exists>old. disk st' ''out/results_2.tsv'' = Some (old @ r)"
    using batch_rotation [OF a _ rs s, where fs = Map.empty and hs = "[''start_time:0'']" and flag = W]
    by (auto simp: c n)
  then show ?thesis unfolding demo_start_def by blast
qed

text \<open>
  The claim as stated, for every finite batch size, fails for the batch sizes
  \<^verbatim>\<open>-b -2\<close> and \<^verbatim>\<open>-b 0\<close>, which \<^verbatim>\<open>type=int\<close> accepts.  With batch size \<open>-2\<close> the third
  completed item is written to \<^verbatim>\<open>results_2.tsv\<close>, where the claim's formula gives file
  number \<open>(3 - 1) div (-2) + 1 = 0\<close>; with batch size \<open>0\<close> the second callback raises
  \<^verbatim>\<open>ZeroDivisionError\<close> and writes no row.
\<close>

theorem batch_rotation_counterexample:
  "map_sum cls csv_report
     (callbacks (demo_args\<lparr>args_batch := Some (- 2)\<rparr>) W
        [Some (slide ''A''), Some (slide ''B''), Some (slide ''C'')]
        (demo_start (demo_args\<lparr>args_batch := Some (- 2)\<rparr>) W)) = Inr ''out/results_2.tsv'' \<and>
   results_name ''out'' ((3 - 1) div (- 2) + 1) = ''out/results_0.tsv'' \<and>
   map_sum cls csv_report
     (callbacks (demo_args\<lparr>args_batch := Some 0\<rparr>) W
        [Some (slide ''A''), Some (slide ''B'')]
        (demo_start (demo_args\<lparr>args_batch := Some 0\<rparr>) W)) = Inl ''ZeroDivisionError''"
  by code_simp

subsection \<open>Rows and columns\<close>

lemma split_nonempty [simp]: "split c s \<noteq> []"
  by (induction s) (auto split: list.splits)

lemma split_no_sep: "c \<notin> set s \<Longrightarrow> split c s = [s]"
  by (induction s) auto

lemma split_append: "c \<notin> set x \<Longrightarrow> split c (x @ c # rest) = x # split c rest"
  by (induction x) auto

lemma join_Cons: "vs \<noteq> [] \<Longrightarrow> join sep (v # vs) = v @ sep @ join sep vs"
  by (cases vs) auto

lemma join_snoc: "vs \<noteq> [] \<Longrightarrow> join sep (vs @ [w]) = join sep vs @ sep @ w"
  by (induction sep vs rule: join.induct) auto

lemma split_join:
  "vs \<noteq> [] \<Longrightarrow> list_all (\<lambda>v. c \<notin> set v) vs \<Longrightarrow> split c (join [c] vs) = vs"
proof (induction vs)
  case Nil
  then show ?case by simp
next
  case (Cons v vs)
  show ?case
  proof (cases "vs = []")
    case True
    with Cons.prems show ?thesis by (simp add: split_no_sep)
  next
    case False
    with Cons show ?thesis by (simp add: join_Cons split_append)
  qed
qed

lemma set_join: "set (join sep vs) \<subseteq> set sep \<union> \<Union> (set ` set vs)"
  by (induction sep vs rule: join.induct) auto

lemma takeWhile_line: "c \<notin> set x \<Longrightarrow> takeWhile (\<lambda>d. d \<noteq> c) (x @ c # rest) = x"
  by (induction x) auto

lemma field_values_map:
  "field_values s fs = Inr vs \<Longrightarrow> map (rendered s) fs = map Some vs"
  by (induction fs arbitrary: vs) (auto split: option.splits sum.splits)

lemma field_values_plain:
  "list_all (\<lambda>f. case rendered s f of None \<Rightarrow> False | Some v \<Rightarrow> plain v) fs \<Longrightarrow>
   \<exists>vs. field_values s fs = Inr vs \<and> length vs = length fs \<and> list_all plain vs"
  by (induction fs) (auto split: option.splits)

lemma plain_join_warnings: "list_all plain ws \<Longrightarrow> plain (join ''|'' ws)"
proof -
  assume a: "list_all plain ws"
  have "set (join ''|'' ws) \<subseteq> set ''|'' \<union> \<Union> (set ` set ws)" by (rule set_join)
  moreover have "TAB \<notin> set ''|''" "NL \<notin> set ''|''" by (simp_all add: TAB_def NL_def)
  moreover have "TAB \<notin> \<Union> (set ` set ws)" "NL \<notin> \<Union> (set ` set ws)"
    using a by (auto simp: list_all_iff plain_def)
  ultimately show ?thesis unfolding plain_def by blast
qed

lemma row_columns:
  assumes "tabular s"
  shows "\<exists>vs line. row s = Inr (line @ [NL]) \<and> NL \<notin> set line \<and>
           map (rendered s) (outputs s) = map Some vs \<and>
           columns (line @ [NL]) = vs @ [join ''|'' (warnings s)] \<and>
           length (columns (line @ [NL])) = length (outputs s) + 1"
proof -
  from assms obtain vs where vs: "field_values s (outputs s) = Inr vs"
      "length vs = length (outputs s)" "list_all plain vs"
    using field_values_plain [of s "outputs s"] by (auto simp: tabular_def)
  let ?w = "join ''|'' (warnings s)"
  let ?line = "join [TAB] vs @ [TAB] @ ?w"
  have ne: "vs \<noteq> []" using vs(2) assms by (auto simp: tabular_def)
  have w: "plain ?w" using assms by (simp add: tabular_def plain_join_warnings)
  have all: "list_all plain (vs @ [?w])" using vs(3) w by simp
  have line: "?line = join [TAB] (vs @ [?w])" using ne by (simp add: join_snoc)
  have "set ?line \<subseteq> set [TAB] \<union> \<Union> (set ` set (vs @ [?w]))"
    unfolding line by (rule set_join)
  moreover have "NL \<notin> set [TAB]" by (simp add: TAB_def NL_def)
  moreover have "NL \<notin> \<Union> (set ` set (vs @ [?w]))"
    using all by (auto simp: list_all_iff plain_def)
  ultimately have nl: "NL \<notin> set ?line" by blast
  have r: "row s = Inr (?line @ [NL])" using vs(1) by (simp add: row_def)
  have "takeWhile (\<lambda>c. c \<noteq> NL) (?line @ [NL]) = ?line"
    using takeWhile_line [OF nl, of "[]"] by simp
  then have "columns (?line @ [NL]) = split TAB (join [TAB] (vs @ [?w]))"
    by (simp only: columns_def line)
  also have "\<dots> = vs @ [?w]"
    using all by (intro split_join) (auto simp: list_all_iff plain_def)
  finally have cols: "columns (?line @ [NL]) = vs @ [?w]" .
  have m: "map (rendered s) (outputs s) = map Some vs" by (rule field_values_map [OF vs(1)])
  show ?thesis using r nl m cols vs(2) by (intro exI [of _ vs] exI [of _ ?line]) simp
qed


lemma rotation_due_total: "args_batch a \<noteq> Some 0 \<Longrightarrow> \<exists>due. rotation_due a st = Inr due"
  by (auto simp: rotation_due_def split: option.splits)

lemma callback_counter:
  assumes "rotation_due a st = Inr due" "row s = Inr r"
  shows "\<exists>st'. callback a flag (Some s) st = Inr st' \<and> unflushed st' = [] \<and>
           nfiledone st' = nfiledone st + 1 \<and>
           disk st' (csv_report st') =
             Some ((on_disk (write_header flag s (if due then rotate a flag st else st))
                      (csv_report (write_header flag s (if due then rotate a flag st else st))) @
                    unflushed (write_header flag s (if due then rotate a flag st else st))) @ r)"
proof -
  let ?st2 = "write_header flag s (if due then rotate a flag st else st)"
  let ?st' = "(csv_flush (csv_write r ?st2))\<lparr>nfiledone := nfiledone ?st2 + 1\<rparr>"
  have cb: "callback a flag (Some s) st = Inr ?st'" by (rule callback_Some [OF assms])
  have "unflushed ?st' = []" by simp
  moreover have "nfiledone ?st' = nfiledone st + 1" by simp
  moreover have "disk ?st' (csv_report ?st') = Some ((on_disk ?st2 (csv_report ?st2) @ unflushed ?st2) @ r)"
    by (rule row_lands)
  ultimately show ?thesis using cb by blast
qed

text \<open>
  C4 (as amended: tabular items).  For a completed item that names at least one output
  field, whose output fields are all set, and whose rendered values and warnings hold
  neither a tab nor a line end, the callback writes exactly one line; split at the tabs it
  has exactly one column per output field, in the order of \<^verbatim>\<open>s["output"]\<close>, followed
  by one column holding the warnings joined by \<^verbatim>\<open>|\<close>.  The line is appended to what
  the report file held and what the header step left pending, nothing is left unflushed,
  and the counter advances by one.
\<close>

theorem row_has_columns:
  assumes s: "tabular s" and a: "args_batch a \<noteq> Some 0"
  shows "\<exists>st' due line vs.
           callback a flag (Some s) st = Inr st' \<and> rotation_due a st = Inr due \<and>
           row s = Inr (line @ [NL]) \<and> NL \<notin> set line \<and>
           map (rendered s) (outputs s) = map Some vs \<and>
           columns (line @ [NL]) = vs @ [join ''|'' (warnings s)] \<and>
           length (columns (line @ [NL])) = length (outputs s) + 1 \<and>
           disk st' (csv_report st') =
             Some ((on_disk (write_header flag s (if due then rotate a flag st else st))
                      (csv_report (write_header flag s (if due then rotate a flag st else st))) @
                    unflushed (write_header flag s (if due then rotate a flag st else st))) @
                   line @ [NL]) \<and>
           unflushed st' = [] \<and> nfiledone st' = nfiledone st + 1"
proof -
  obtain due where due: "rotation_due a st = Inr due"
    using rotation_due_total [OF a] by blast
  obtain vs line where r: "row s = Inr (line @ [NL])" "NL \<notin> set line"
      "map (rendered s) (outputs s) = map Some vs"
      "columns (line @ [NL]) = vs @ [join ''|'' (warnings s)]"
      "length (columns (line @ [NL])) = length (outputs s) + 1"
    using row_columns [OF s] by blast
  obtain st' where "callback a flag (Some s) st = Inr st'" "unflushed st' = []"
      "nfiledone st' = nfiledone st + 1"
      "disk st' (csv_report st') =
             Some ((on_disk (write_header flag s (if due then rotate a flag st else st))
                      (csv_report (write_header flag s (if due then rotate a flag st else st))) @
                    unflushed (write_header flag s (if due then rotate a flag st else st))) @
                   line @ [NL])"
    using callback_counter [OF due r(1)] by blast
  with due r show ?thesis by blast
qed

text \<open>The theorem at the first item of a run: three columns, flushed.\<close>

theorem row_has_columns_witness:
  "\<exists>st' line. callback demo_args W (Some (slide ''A'')) (demo_start demo_args W) = Inr st' \<and>
      row (slide ''A'') = Inr (line @ [NL]) \<and>
      columns (line @ [NL]) = [''A'', ''ok'', ''w1|w2''] \<and>
      length (columns (line @ [NL])) = 3 \<and> unflushed st' = []"
proof -
  have s: "tabular (slide ''A'')"
    by (simp add: tabular_def slide_def plain_def TAB_def NL_def)
  have a: "args_batch demo_args \<noteq> Some 0" by (simp add: demo_args_def)
  obtain st' line vs where h:
      "callback demo_args W (Some (slide ''A'')) (demo_start demo_args W) = Inr st'"
      "row (slide ''A'') = Inr (line @ [NL])"
      "map (rendered (slide ''A'')) (outputs (slide ''A'')) = map Some vs"
      "columns (line @ [NL]) = vs @ [join ''|'' (warnings (slide ''A''))]"
      "length (columns (line @ [NL])) = length (outputs (slide ''A'')) + 1"
      "unflushed st' = []"
    using row_has_columns [OF s a, of W "demo_start demo_args W"] by blast
  from h(3) have "vs = [''A'', ''ok'']" by (auto simp: slide_def)
  with h show ?thesis by (auto simp: slide_def)
qed

text \<open>
  The claim as stated, for every completed item, fails in two ways.  An item whose
  \<^verbatim>\<open>comments\<close> value holds a tab gives a row of four tab-separated columns for two
  output fields; an item with no output field gives a row that starts with the separating tab, two
  columns where the claim counts one.
\<close>

theorem row_has_columns_counterexample:
  "map_sum cls (\<lambda>r. length (columns r)) (row tabbed_slide) = Inr 4 \<and>
   length (outputs tabbed_slide) + 1 = 3 \<and>
   map_sum cls (\<lambda>r. length (columns r)) (row bare_slide) = Inr 2 \<and>
   length (outputs bare_slide) + 1 = 1"
  by code_simp

subsection \<open>Headers\<close>


lemma report_text_Nil [simp]: "report_text hs [] = []"
  by (simp add: report_text_def)


















section \<open>Properties of the worker\<close>


lemma worker_run:
  assumes "\<not> (isdir w (outdir a @ os_sep @ basename fname) \<and> \<not> force a)"
    and "load_and_run L fname (outdir a @ os_sep @ basename fname) cfg q = (r, q', evs)"
  shows "worker L i n fname a cfg q w =
     (task_result fname r, q',
      \<lparr>dirs = (dirs w)(outdir a @ os_sep @ basename fname \<mapsto>
                (if isdir w (outdir a @ os_sep @ basename fname) \<and> \<not> force a
                 then the (dirs w (outdir a @ os_sep @ basename fname)) else [])),
       trace = trace w @
         (if isdir w (outdir a @ os_sep @ basename fname)
          then [Rmtree (outdir a @ os_sep @ basename fname)] else []) @
         [Makedirs (outdir a @ os_sep @ basename fname), Log INFO (working_message i n fname)] @ evs\<rparr>)"
  using assms
  by (cases r)
     (auto simp: worker_def Let_def task_result_def rmtree_def make_dir_safe_def emit_def isdir_def)




subsection \<open>Parameter maps\<close>

lemma map_sum_Inr: "map_sum f g x = Inr y \<Longrightarrow> \<exists>z. x = Inr z \<and> g z = y"
  by (cases x) auto

lemma touched_refl: "touched q q"
  by (simp add: touched_def list_all2_same)

lemma touched_Cons:
  "touched q q' \<Longrightarrow> touched ((p, ps) # q) ((p, injected ps) # q')"
  by (simp add: touched_def)

lemma run_queue_touched:
  "run_queue s q = (r, q', evs) \<Longrightarrow> touched q q'"
proof (induction q arbitrary: s r q' evs)
  case Nil
  then show ?case by (simp add: touched_def)
next
  case (Cons x q)
  obtain p ps where x: "x = (p, ps)" by (cases x)
  show ?case
  proof (cases "snd p s (injected ps)")
    case (Inl e)
    then have "q' = (p, injected ps) # q"
      using Cons.prems x by (simp add: injected_def)
    then show ?thesis using x touched_Cons [OF touched_refl] by simp
  next
    case (Inr s')
    obtain r1 q1 evs1 where rq: "run_queue (s'\<lparr>completed := completed s' @ [fst p]\<rparr>) q = (r1, q1, evs1)"
      by (cases "run_queue (s'\<lparr>completed := completed s' @ [fst p]\<rparr>) q") auto
    then have "q' = (p, injected ps) # q1"
      using Cons.prems x Inr by (simp add: injected_def)
    then show ?thesis using x touched_Cons [OF Cons.IH [OF rq]] by simp
  qed
qed

lemma run_queue_success:
  "run_queue s q = (Inr s', q', evs) \<Longrightarrow>
   q' = map (\<lambda>x. (fst x, injected (snd x))) q \<and> evs = map (\<lambda>x. Invoke (fst (fst x))) q"
proof (induction q arbitrary: s s' q' evs)
  case Nil
  then show ?case by simp
next
  case (Cons x q)
  obtain p ps where x: "x = (p, ps)" by (cases x)
  show ?case
  proof (cases "snd p s (injected ps)")
    case (Inl e)
    then show ?thesis using Cons.prems x by (simp add: injected_def)
  next
    case (Inr s1)
    obtain r1 q1 evs1 where rq: "run_queue (s1\<lparr>completed := completed s1 @ [fst p]\<rparr>) q = (r1, q1, evs1)"
      by (cases "run_queue (s1\<lparr>completed := completed s1 @ [fst p]\<rparr>) q") auto
    then have eq: "r1 = Inr s'" "q' = (p, injected ps) # q1" "evs = Invoke (fst p) # evs1"
      using Cons.prems x Inr by (simp_all add: injected_def)
    from Cons.IH [OF rq [unfolded eq(1)]] eq x show ?thesis by simp
  qed
qed

lemma load_and_run_touched:
  "load_and_run L fname d cfg q = (r, q', evs) \<Longrightarrow> touched q q'"
  by (auto simp: load_and_run_def touched_refl split: option.splits sum.splits prod.splits
      dest: run_queue_touched)

lemma load_and_run_success:
  "load_and_run L fname d cfg q = (Inr s, q', evs) \<Longrightarrow> q' = map (\<lambda>x. (fst x, injected (snd x))) q"
  by (auto simp: load_and_run_def split: option.splits sum.splits prod.splits
      dest: run_queue_success)

lemma worker_touched:
  assumes "worker L i n fname a cfg q w = (res, q', w')"
  shows "touched q q'"
proof (cases "isdir w (outdir a @ os_sep @ basename fname) \<and> \<not> force a")
  case True
  then show ?thesis using assms by (auto simp: worker_def touched_refl)
next
  case False
  obtain r q1 evs where lr: "load_and_run L fname (outdir a @ os_sep @ basename fname) cfg q = (r, q1, evs)"
    by (cases "load_and_run L fname (outdir a @ os_sep @ basename fname) cfg q") auto
  from worker_run [OF False lr, of i n] assms have "q' = q1" by simp
  then show ?thesis using load_and_run_touched [OF lr] by simp
qed

lemma worker_success:
  assumes "worker L i n fname a cfg q w = (Inr (Some s), q', w')"
  shows "q' = map (\<lambda>x. (fst x, injected (snd x))) q"
proof (cases "isdir w (outdir a @ os_sep @ basename fname) \<and> \<not> force a")
  case True
  then show ?thesis using assms by (auto simp: worker_def)
next
  case False
  obtain r q1 evs where lr: "load_and_run L fname (outdir a @ os_sep @ basename fname) cfg q = (r, q1, evs)"
    by (cases "load_and_run L fname (outdir a @ os_sep @ basename fname) cfg q") auto
  from worker_run [OF False lr, of i n] assms have eq: "q' = q1" "task_result fname r = Inr (Some s)"
    by simp_all
  then obtain s0 where "r = Inr s0" by (cases r) (auto simp: task_result_def)
  with lr eq show ?thesis using load_and_run_success by blast
qed

lemma resolve_steps_params:
  "resolve_steps reg im cfg steps = (Inr q, evs) \<Longrightarrow> map snd q = map (section_params cfg) steps"
proof (induction steps arbitrary: q evs)
  case Nil
  then show ?case by simp
next
  case (Cons step steps)
  from Cons.prems obtain func q1 evs1 where
      "resolve_steps reg im cfg steps = (Inr q1, evs1)" "q = (func, section_params cfg step) # q1"
    by (auto simp: section_params_def Let_def
        split: list.splits option.splits sum.splits prod.splits if_splits)
  then show ?case using Cons.IH by simp
qed

lemma load_pipeline_params:
  assumes "load_pipeline reg im cfg hs = (Inr q, hs', evs)"
  shows "\<exists>items v. cfg ''pipeline'' = Some items \<and> map_of items ''steps'' = Some v \<and>
           map snd q = map (section_params cfg) (splitlines v) \<and>
           hs' = hs @ [''pipeline: '' @ join '' '' (splitlines v)]"
  using assms
  by (auto simp: load_pipeline_def Let_def split: option.splits prod.splits
      dest: resolve_steps_params)

lemma injected_other: "k \<noteq> ''lock'' \<Longrightarrow> k \<noteq> ''shared_dict'' \<Longrightarrow> injected ps k = ps k"
  by (simp add: injected_def)

text \<open>
  C9 (as amended).  \<^verbatim>\<open>load_pipeline\<close> builds each step's parameter map from the step's
  configuration section.  The worker does write to the parameter maps of its copy of the
  process queue: whatever the task's outcome, each map is left either as it was or with the
  two proxies stored under \<^verbatim>\<open>"lock"\<close> and \<^verbatim>\<open>"shared_dict"\<close>, and after a task that
  returned an item state every map has them.  Every other key keeps the value it was
  loaded with.
\<close>

theorem params_after_load:
  "(load_pipeline reg im cfg hs = (Inr q0, hs', evs) \<longrightarrow>
      (\<exists>items v. cfg ''pipeline'' = Some items \<and> map_of items ''steps'' = Some v \<and>
         map snd q0 = map (section_params cfg) (splitlines v))) \<and>
   (worker L i n fname a cfg q w = (res, q', w') \<longrightarrow> touched q q') \<and>
   (worker L i n fname a cfg q w = (Inr (Some s), q', w') \<longrightarrow>
      q' = map (\<lambda>x. (fst x, injected (snd x))) q) \<and>
   injected ps ''lock'' = Some Lock \<and> injected ps ''shared_dict'' = Some Shared_dict \<and>
   (\<forall>k. k \<noteq> ''lock'' \<and> k \<noteq> ''shared_dict'' \<longrightarrow> injected ps k = ps k)"
  using load_pipeline_params [of reg im cfg hs q0 hs' evs]
    worker_touched [of L i n fname a cfg q w res q' w']
    worker_success [of L i n fname a cfg q w s q' w']
  by (auto simp: injected_def)

text \<open>
  The theorem on the example: the two parameter maps as loaded, and as the task on
  \<^verbatim>\<open>/cwd/b.svs\<close> leaves them.
\<close>

theorem params_after_load_witness:
  "(\<exists>q0 hs' evs items v.
      load_pipeline demo_modules True demo_config [] = (Inr q0, hs', evs) \<and>
      demo_config ''pipeline'' = Some items \<and> map_of items ''steps'' = Some v \<and>
      map snd q0 = map (section_params demo_config) (splitlines v)) \<and>
   (\<exists>s q' w'.
      worker demo_loader 1 2 ''/cwd/b.svs'' demo_args demo_config demo_queue demo_world =
        (Inr (Some s), q', w') \<and>
      touched demo_queue q' \<and> q' = map (\<lambda>x. (fst x, injected (snd x))) demo_queue)"
proof -
  have "map_sum cls (map (\<lambda>x. fst (fst x))) (fst (load_pipeline demo_modules True demo_config [])) =
          Inr [''stepA'', ''stepB'']"
    by code_simp
  from map_sum_Inr [OF this]
  obtain q0 where "fst (load_pipeline demo_modules True demo_config []) = Inr q0"
    by (elim exE conjE)
  then obtain hs' evs where lp: "load_pipeline demo_modules True demo_config [] = (Inr q0, hs', evs)"
    by (cases "load_pipeline demo_modules True demo_config []") auto
  have "map_sum cls (map_option completed)
          (fst (worker demo_loader 1 2 ''/cwd/b.svs'' demo_args demo_config demo_queue demo_world)) =
          Inr (Some [''stepA'', ''stepB''])"
    by code_simp
  from map_sum_Inr [OF this]
  obtain z where z: "fst (worker demo_loader 1 2 ''/cwd/b.svs'' demo_args demo_config demo_queue
      demo_world) = Inr z" "map_option completed z = Some [''stepA'', ''stepB'']"
    by (elim exE conjE)
  from z(2) obtain s where "z = Some s" by (cases z) simp_all
  with z(1) obtain q' w' where wk: "worker demo_loader 1 2 ''/cwd/b.svs'' demo_args demo_config
      demo_queue demo_world = (Inr (Some s), q', w')"
    by (cases "worker demo_loader 1 2 ''/cwd/b.svs'' demo_args demo_config demo_queue demo_world") auto
  note th = params_after_load [where reg = demo_modules and im = True and cfg = demo_config
      and hs = "[]" and ?q0.0 = q0 and hs' = hs' and evs = evs and L = demo_loader and i = 1
      and n = 2 and fname = "''/cwd/b.svs''" and a = demo_args and q = demo_queue
      and w = demo_world and res = "Inr (Some s)" and q' = q' and w' = w' and s = s]
  have c1: "\<exists>items v. demo_config ''pipeline'' = Some items \<and> map_of items ''steps'' = Some v \<and>
      map snd q0 = map (section_params demo_config) (splitlines v)"
    by (rule mp [OF th [THEN conjunct1] lp])
  have c2: "touched demo_queue q'"
    by (rule mp [OF th [THEN conjunct2, THEN conjunct1] wk])
  have c3: "q' = map (\<lambda>x. (fst x, injected (snd x))) demo_queue"
    by (rule mp [OF th [THEN conjunct2, THEN conjunct2, THEN conjunct1] wk])
  from c1 obtain items v where c1': "demo_config ''pipeline'' = Some items"
      "map_of items ''steps'' = Some v"
      "map snd q0 = map (section_params demo_config) (splitlines v)"
    by blast
  have A: "\<exists>q0 hs' evs items v.
      load_pipeline demo_modules True demo_config [] = (Inr q0, hs', evs) \<and>
      demo_config ''pipeline'' = Some items \<and> map_of items ''steps'' = Some v \<and>
      map snd q0 = map (section_params demo_config) (splitlines v)"
    using lp c1' by (intro exI conjI)
  have B: "\<exists>s q' w'.
      worker demo_loader 1 2 ''/cwd/b.svs'' demo_args demo_config demo_queue demo_world =
        (Inr (Some s), q', w') \<and>
      touched demo_queue q' \<and> q' = map (\<lambda>x. (fst x, injected (snd x))) demo_queue"
    using wk c2 c3 by (intro exI conjI)
  show ?thesis using A B by (rule conjI)
qed

text \<open>
  The claim as stated fails on every task that runs a step: the second step of the
  example is loaded with an empty parameter map, and the map holds the lock once the
  worker has run.
\<close>

theorem params_after_load_counterexample:
  "map (\<lambda>x. snd x ''lock'') demo_queue = [None, None] \<and>
   map (\<lambda>x. snd x ''lock'')
     (fst (snd (worker demo_loader 1 2 ''/cwd/b.svs'' demo_args demo_config demo_queue demo_world))) =
     [Some Lock, Some Lock]"
  by code_simp

section \<open>Properties of the enumeration\<close>

lemma readlines_nonempty: "[] \<notin> set (readlines s)"
  by (induction s) (auto split: list.splits)

lemma manifest_loop_entries:
  "[] \<notin> set ls \<Longrightarrow> manifest_loop bp ls acc = Inr (acc @ manifest_entries bp ls)"
proof (induction ls arbitrary: acc)
  case Nil
  then show ?case by (simp add: manifest_entries_def)
next
  case (Cons l ls)
  then obtain c cs where l: "l = c # cs" by (cases l) auto
  have ih: "\<And>acc. manifest_loop bp ls acc = Inr (acc @ manifest_entries bp ls)"
    using Cons by simp
  show ?case
  proof (cases "c = CHR ''#''")
    case True
    then show ?thesis using l ih by (simp add: manifest_entries_def is_comment_def)
  next
    case False
    obtain col cols where sp: "split TAB (strip l) = col # cols"
      by (cases "split TAB (strip l)") auto
    then show ?thesis
      using l ih False by (simp add: manifest_entries_def is_comment_def first_column_def)
  qed
qed

lemma manifest_from_file:
  assumes "input_pattern a = [p]" "endswith p ''tsv''" "read_text ev p = Some content"
  shows "enumerate_files ev a = Inr (manifest_entries (base_prefix a) (readlines content))"
  using assms manifest_loop_entries [OF readlines_nonempty, of "base_prefix a" content "[]"]
  by (simp add: enumerate_files_def)

text \<open>
  C8 (as amended: the column is taken from the stripped line).  The loop over a
  manifest's lines returns, for every file content, the entries of its lines in order: a
  line whose first character is \<^verbatim>\<open>#\<close> contributes none, every other line contributes
  exactly one, the base-path prefix followed by the first tab-separated column of the
  line once the white space around it (blanks, tabs, the line end) is stripped.  This
  is the list \<^verbatim>\<open>main\<close> enumerates when its single input pattern ends in \<^verbatim>\<open>tsv\<close>.
\<close>

theorem manifest_lines:
  "manifest_loop bp (readlines content) [] =
     Inr (concat (map (\<lambda>l. if is_comment l then [] else [bp @ first_column l]) (readlines content))) \<and>
   (input_pattern a = [p] \<and> endswith p ''tsv'' \<and> read_text ev p = Some content \<longrightarrow>
      enumerate_files ev a =
        Inr (concat (map (\<lambda>l. if is_comment l then [] else [base_prefix a @ first_column l])
               (readlines content))))"
  using manifest_loop_entries [OF readlines_nonempty, of bp content "[]"]
    manifest_from_file [of a p ev content]
  by (simp add: manifest_entries_def)

text \<open>
  The theorem on a manifest of two data lines and one comment line, with base path
  \<^verbatim>\<open>/data\<close>: two entries, both behind \<^verbatim>\<open>/data/\<close>.
\<close>

theorem manifest_lines_witness:
  "enumerate_files manifest_env manifest_args = Inr [''/data/a.svs'', ''/data/b.svs''] \<and>
   readlines demo_manifest =
     [''a.svs'' @ [TAB] @ ''ok'' @ [NL], ''#dataset:filename'' @ [NL], ''b.svs'' @ [NL]]"
proof -
  have p: "input_pattern manifest_args = [''list.tsv'']" by (simp add: manifest_args_def)
  have e: "endswith ''list.tsv'' ''tsv''" by code_simp
  have r: "read_text manifest_env ''list.tsv'' = Some demo_manifest"
    by (simp add: manifest_env_def)
  have v: "concat (map (\<lambda>l. if is_comment l then [] else [base_prefix manifest_args @ first_column l])
               (readlines demo_manifest)) = [''/data/a.svs'', ''/data/b.svs'']"
    by code_simp
  have l: "readlines demo_manifest =
     [''a.svs'' @ [TAB] @ ''ok'' @ [NL], ''#dataset:filename'' @ [NL], ''b.svs'' @ [NL]]"
    by code_simp
  show ?thesis
    using manifest_lines [of "[]" demo_manifest manifest_args "''list.tsv''" manifest_env] p e r v l
    by simp
qed

text \<open>
  The claim as stated, with the first column of the line itself, fails on a line that
  starts with a tab: its first tab-separated column is empty, and the entry is the base
  path followed by the second.  A line that starts with a blank loses the blank.
\<close>

theorem manifest_lines_counterexample:
  "split TAB ([TAB] @ ''b.svs'') = [[], ''b.svs''] \<and>
   manifest_loop ''/data/'' (readlines ([TAB] @ ''b.svs'' @ [NL])) [] = Inr [''/data/b.svs''] \<and>
   split TAB '' a.svs'' = ['' a.svs''] \<and>
   manifest_loop ''/data/'' (readlines ('' a.svs'' @ [NL])) [] = Inr [''/data/a.svs'']"
  by code_simp






section \<open>Properties of the coordinator\<close>

lemma item_event_simps [simp]:
  "\<not> item_event (Log l m)" "\<not> item_event (Makedirs d)" "\<not> item_event Print_help"
  "item_event (Load f d)" "item_event (Invoke nm)"
  by (simp_all add: item_event_def)

lemma resolve_steps_logs:
  "resolve_steps reg im cfg steps = (r, evs) \<Longrightarrow> \<not> list_ex item_event evs"
proof (induction steps arbitrary: r evs)
  case Nil
  then show ?case by simp
next
  case (Cons step steps)
  obtain r1 evs1 where rs: "resolve_steps reg im cfg steps = (r1, evs1)"
    by (cases "resolve_steps reg im cfg steps") auto
  from Cons.IH [OF rs] have ih: "\<not> list_ex item_event evs1" .
  from Cons.prems rs ih show ?case
    by (auto simp: Let_def
        split: list.splits option.splits sum.splits prod.splits if_splits)
qed

lemma load_pipeline_logs:
  "load_pipeline reg im cfg hs = (r, hs', evs) \<Longrightarrow> \<not> list_ex item_event evs"
  by (auto simp: load_pipeline_def Let_def
      split: option.splits prod.splits if_splits dest: resolve_steps_logs)

lemma main_no_args:
  "length (argv ev) = 1 \<Longrightarrow>
   main ev a fs w =
     (Exit 1, (initial_globals fs)\<lparr>headers := [start_line ev]\<rparr>, w\<lparr>trace := trace w @ [Print_help]\<rparr>)"
  by (simp add: main_def emit_def start_line_def)

lemma main_no_input:
  assumes "length (argv ev) \<noteq> 1" "input_pattern a = []"
    and "load_pipeline (modules ev) True (lconfig ev) [start_line ev] = (Inr q, hs, evs)"
  shows "fst (main ev a fs w) = Exit 1 \<and>
         trace (snd (snd (main ev a fs w))) =
           trace w @ evs @ [Log INFO ''----------'', Makedirs (outdir a)] @
             previous_run_log ev a @ [Log ERROR ''No imput files given'']"
  using assms
  by (simp add: main_def Let_def emit_def make_dir_safe_def initial_globals_def start_line_def)

lemma previous_run_log_quiet: "\<not> list_ex item_event (previous_run_log ev a)"
  by (simp add: previous_run_log_def)

lemma main_nothing_found:
  assumes "length (argv ev) \<noteq> 1" "input_pattern a \<noteq> []"
    and "load_pipeline (modules ev) True (lconfig ev) [start_line ev] = (Inr q, hs, evs)"
    and "enumerate_files ev a = Inr []"
  shows "fst (main ev a fs w) = Done"
  using assms
  by (cases "input_pattern a")
     (simp_all add: main_def Let_def initial_globals_def start_line_def submitted_def
        split: prod.splits)

text \<open>
  C7 (as amended).  Started with no argument at all, \<^verbatim>\<open>main\<close> prints the usage text
  and exits with status 1.  Started with arguments but no input pattern, it exits with
  status 1 after loading the pipeline and making the output directory, having logged the
  error; in both cases no loader and no step has been called.  When input patterns are
  given and expand to no file, \<^verbatim>\<open>main\<close> does not fail: the run goes through to its end.
\<close>

theorem empty_input:
  "(length (argv ev) = 1 \<longrightarrow>
      main ev a fs w =
        (Exit 1, (initial_globals fs)\<lparr>headers := [start_line ev]\<rparr>,
         w\<lparr>trace := trace w @ [Print_help]\<rparr>)) \<and>
   (length (argv ev) \<noteq> 1 \<and> input_pattern a = [] \<and>
    load_pipeline (modules ev) True (lconfig ev) [start_line ev] = (Inr q, hs, evs) \<longrightarrow>
      fst (main ev a fs w) = Exit 1 \<and>
      trace (snd (snd (main ev a fs w))) =
        trace w @ evs @ [Log INFO ''----------'', Makedirs (outdir a)] @
          previous_run_log ev a @ [Log ERROR ''No imput files given''] \<and>
      \<not> list_ex item_event
          (evs @ [Log INFO ''----------'', Makedirs (outdir a)] @
             previous_run_log ev a @ [Log ERROR ''No imput files given''])) \<and>
   (length (argv ev) \<noteq> 1 \<and> input_pattern a \<noteq> [] \<and>
    load_pipeline (modules ev) True (lconfig ev) [start_line ev] = (Inr q, hs, evs) \<and>
    enumerate_files ev a = Inr [] \<longrightarrow>
      fst (main ev a fs w) = Done)"
proof (intro conjI impI)
  assume "length (argv ev) = 1"
  then show "main ev a fs w =
        (Exit 1, (initial_globals fs)\<lparr>headers := [start_line ev]\<rparr>,
         w\<lparr>trace := trace w @ [Print_help]\<rparr>)"
    by (rule main_no_args)
next
  assume h: "length (argv ev) \<noteq> 1 \<and> input_pattern a = [] \<and>
    load_pipeline (modules ev) True (lconfig ev) [start_line ev] = (Inr q, hs, evs)"
  then show "fst (main ev a fs w) = Exit 1"
    using main_no_input [of ev a q hs evs fs w] by blast
  from h show "trace (snd (snd (main ev a fs w))) =
        trace w @ evs @ [Log INFO ''----------'', Makedirs (outdir a)] @
          previous_run_log ev a @ [Log ERROR ''No imput files given'']"
    using main_no_input [of ev a q hs evs fs w] by blast
  from h have "\<not> list_ex item_event evs"
    using load_pipeline_logs by blast
  then show "\<not> list_ex item_event
          (evs @ [Log INFO ''----------'', Makedirs (outdir a)] @
             previous_run_log ev a @ [Log ERROR ''No imput files given''])"
    using previous_run_log_quiet [of ev a] by simp
next
  assume "length (argv ev) \<noteq> 1 \<and> input_pattern a \<noteq> [] \<and>
    load_pipeline (modules ev) True (lconfig ev) [start_line ev] = (Inr q, hs, evs) \<and>
    enumerate_files ev a = Inr []"
  then show "fst (main ev a fs w) = Done"
    using main_nothing_found [of ev a q hs evs fs w] by blast
qed

text \<open>
  The theorem on three command lines: the program name alone, the program name with
  \<^verbatim>\<open>-f\<close> only, and a glob pattern that matches nothing.
\<close>

theorem empty_input_witness:
  "fst (main noargs_env demo_args Map.empty demo_world) = Exit 1 \<and>
   trace (snd (snd (main noargs_env demo_args Map.empty demo_world))) = [Print_help] \<and>
   fst (main force_only_env force_only_args Map.empty demo_world) = Exit 1 \<and>
   fst (main nomatch_env glob_args Map.empty demo_world) = Done"
proof -
  have l1: "length (argv noargs_env) = 1" by (simp add: noargs_env_def)
  have l2: "length (argv force_only_env) \<noteq> 1" "input_pattern force_only_args = []"
    by (simp_all add: force_only_env_def force_only_args_def)
  have l3: "length (argv nomatch_env) \<noteq> 1" "input_pattern glob_args \<noteq> []"
    by (simp_all add: nomatch_env_def glob_args_def)
  have en: "enumerate_files nomatch_env glob_args = Inr []" by code_simp
  have same: "modules force_only_env = demo_modules" "lconfig force_only_env = demo_config"
      "start_line force_only_env = start_line demo_env"
      "modules nomatch_env = demo_modules" "lconfig nomatch_env = demo_config"
      "start_line nomatch_env = start_line demo_env"
    by (simp_all add: force_only_env_def nomatch_env_def demo_env_def start_line_def)
  have "map_sum cls (map (\<lambda>x. fst (fst x)))
          (fst (load_pipeline demo_modules True demo_config [start_line demo_env])) =
          Inr [''stepA'', ''stepB'']"
    by code_simp
  from map_sum_Inr [OF this]
  obtain q where "fst (load_pipeline demo_modules True demo_config [start_line demo_env]) = Inr q"
    by (elim exE conjE)
  then obtain hs evs where
    lp: "load_pipeline demo_modules True demo_config [start_line demo_env] = (Inr q, hs, evs)"
    by (cases "load_pipeline demo_modules True demo_config [start_line demo_env]") auto
  have tr: "trace demo_world = []" by (simp add: demo_world_def)
  have a: "main noargs_env demo_args Map.empty demo_world =
        (Exit 1, (initial_globals Map.empty)\<lparr>headers := [start_line noargs_env]\<rparr>,
         demo_world\<lparr>trace := trace demo_world @ [Print_help]\<rparr>)"
    by (rule mp [OF empty_input [where ev = noargs_env and a = demo_args and fs = Map.empty
          and w = demo_world, THEN conjunct1] l1])
  have b: "fst (main force_only_env force_only_args Map.empty demo_world) = Exit 1"
    using empty_input [where ev = force_only_env and a = force_only_args and fs = Map.empty
        and w = demo_world and q = q and hs = hs and evs = evs] l2 lp same
    by simp
  have c: "fst (main nomatch_env glob_args Map.empty demo_world) = Done"
    using empty_input [where ev = nomatch_env and a = glob_args and fs = Map.empty
        and w = demo_world and q = q and hs = hs and evs = evs] l3 lp same en
    by simp
  show ?thesis using a b c tr by simp
qed

text \<open>
  The claim as stated fails when the input is given and expands to nothing: a glob
  pattern that matches no file, or a manifest that holds only a comment, ends the run
  normally and not with status 1.
\<close>

theorem empty_input_counterexample:
  "enumerate_files nomatch_env glob_args = Inr [] \<and>
   fst (main nomatch_env glob_args Map.empty demo_world) = Done \<and>
   enumerate_files comments_env manifest_args = Inr [] \<and>
   fst (main comments_env manifest_args Map.empty demo_world) = Done"
  by code_simp

text \<open>
  C1 does not hold of the code.  In the example the second step raises for the slide
  \<^verbatim>\<open>a.svs\<close> only, and \<^verbatim>\<open>b.svs\<close> is submitted after it.  The worker raises the exception
  again with the item path appended; \<^verbatim>\<open>main\<close> ends with that exception; the list
  \<^verbatim>\<open>failed\<close> is still empty and the report file holds no row.  The error callback
  \<^verbatim>\<open>worker_error\<close>, had it been called with the exception, would have recorded the
  failure of \<^verbatim>\<open>/cwd/a.svs\<close>.
\<close>

theorem step_fault_escapes:
  "map_sum id (map_option completed)
     (fst (worker demo_loader 0 2 ''/cwd/a.svs'' demo_args demo_config demo_queue demo_world)) =
     Inl bad_slide \<and>
   fst (main demo_env demo_args Map.empty demo_world) = Raised bad_slide \<and>
   failed (fst (snd (main demo_env demo_args Map.empty demo_world))) = [] \<and>
   disk (fst (snd (main demo_env demo_args Map.empty demo_world))) ''out/results_1.tsv'' = Some [] \<and>
   \<not> list_ex (\<lambda>e. e = Load ''/cwd/b.svs'' ''out/b.svs'')
       (trace (snd (snd (main demo_env demo_args Map.empty demo_world)))) \<and>
   map_sum cls failed (worker_error ''doc'' ''bad slide'' bad_slide (initial_globals Map.empty)) =
     Inr [(''/cwd/a.svs'', ''RuntimeError doc bad slide '')]"
  by code_simp

subsection \<open>The report of a whole run\<close>





end
